theory Spec2Isabelle
  imports Complex_Main "HOL-Library.Char_ord" "HOL-Library.List_Lexorder" "HOL-Library.Log_Nat"
begin

section \<open>Matching engine (market-service/matching-engine.js)\<close>

text \<open>
  Share quantities and millisecond timestamps are integers (\<^typ>\<open>int\<close>); prices and
  money are doubles, each modelled by the real number it denotes (\<^typ>\<open>real\<close>).  The
  comparisons of the code are exact on them, and the engine does no other arithmetic on
  prices.  Where \<open>updatePortfolio\<close> computes an average price and the amount of a trade,
  every operation is rounded as the code rounds it; the required balance of
  \<open>validateOrder\<close>, the amounts of the balance updates and the sums of the analytics are
  taken without rounding.  The field \<open>order_type\<close> reaches the code
  either as a number (\<open>0\<close> = BUY, \<open>1\<close> = SELL) or as a string, and the code tests both
  forms, so the model keeps both.  Identifiers produced by \<open>uuidv4()\<close> are drawn from a
  counter, and \<open>Date.now()\<close> is the parameter \<open>now\<close>.
\<close>

datatype js_order_type = OT_num int | OT_str string

datatype order_status = PENDING | PARTIALLY_FILLED | FILLED | CANCELED | REJECTED

datatype event_kind = ORDER_PLACED | ORDER_EXECUTED | ORDER_CANCELED

record order =
  order_id :: nat
  investor_id :: string
  stock_symbol :: string
  order_type :: js_order_type
  quantity :: int
  price :: real
  filled_quantity :: int
  status :: order_status
  created_at :: int
  updated_at :: int

text \<open>The order object as \<open>placeOrder\<close> creates it: nothing filled, status \<open>PENDING\<close>.\<close>

definition new_order ::
  "nat \<Rightarrow> string \<Rightarrow> string \<Rightarrow> js_order_type \<Rightarrow> int \<Rightarrow> real \<Rightarrow> int \<Rightarrow> order" where
  "new_order oid investor stockSymbol t qty px now =
     \<lparr>order_id = oid, investor_id = investor, stock_symbol = stockSymbol, order_type = t,
      quantity = qty, price = px, filled_quantity = 0, status = PENDING,
      created_at = now, updated_at = now\<rparr>"

record execution =
  execution_id :: nat
  buy_order_id :: nat
  sell_order_id :: nat
  ex_stock_symbol :: string
  ex_quantity :: int
  ex_price :: real
  buyer_id :: string
  seller_id :: string
  ex_timestamp :: int

record event =
  event_type :: event_kind
  ev_order_id :: nat
  ev_stock_symbol :: string
  ev_order_type :: js_order_type
  ev_quantity :: int
  ev_price :: real
  ev_investor_id :: string
  ev_timestamp :: int

text \<open>
  The engine object.  \<open>orders\<close> and the two arrays of a book hold references to the same
  order objects; order ids are fresh uuids, so the object stored under an id is the one in
  the book, and the model writes every mutation of an order to both places.  \<open>emitted\<close>
  is the sequence of events handed to the subscribers, \<open>uuid_next\<close> the state of the
  uuid generator.
\<close>

record order_book =
  bids :: "order list"
  asks :: "order list"

record engine =
  orderBooks :: "string \<rightharpoonup> order_book"
  orders :: "nat \<rightharpoonup> order"
  emitted :: "event list"
  uuid_next :: nat

definition new_engine :: engine where
  "new_engine = \<lparr>orderBooks = Map.empty, orders = Map.empty, emitted = [], uuid_next = 0\<rparr>"

definition isBuyType :: "js_order_type \<Rightarrow> bool" where
  "isBuyType t \<longleftrightarrow> t = OT_str ''BUY'' \<or> t = OT_num 0"

text \<open>
  \<open>Array.prototype.sort\<close> is stable; with the comparator \<open>(a, b) => b.price - a.price\<close> it
  orders by descending price, with \<open>(a, b) => a.price - b.price\<close> by ascending price.
\<close>

definition sortBids :: "order list \<Rightarrow> order list" where
  "sortBids xs = sort_key (\<lambda>x. - price x) xs"

definition sortAsks :: "order list \<Rightarrow> order list" where
  "sortAsks xs = sort_key price xs"

text \<open>The state of the \<open>while\<close> loop of \<open>matchOrders\<close>.\<close>

record match_state =
  m_bids :: "order list"
  m_asks :: "order list"
  m_executions :: "execution list"
  m_orders :: "nat \<rightharpoonup> order"
  m_events :: "event list"
  m_uuid :: nat

definition canMatch :: "order \<Rightarrow> order \<Rightarrow> bool" where
  "canMatch bid ask \<longleftrightarrow> price bid = 0 \<or> price ask = 0 \<or> price bid \<ge> price ask"

definition executionPrice :: "order \<Rightarrow> order \<Rightarrow> real" where
  "executionPrice bid ask =
     (if price bid = 0 then price ask
      else if price ask = 0 then price bid
      else price ask)"

definition executionQuantity :: "order \<Rightarrow> order \<Rightarrow> int" where
  "executionQuantity bid ask =
     min (quantity bid - filled_quantity bid) (quantity ask - filled_quantity ask)"

definition fill :: "order \<Rightarrow> int \<Rightarrow> order" where
  "fill x q =
     (let f = filled_quantity x + q
      in x\<lparr>filled_quantity := f,
           status := (if f \<ge> quantity x then FILLED else PARTIALLY_FILLED)\<rparr>)"

text \<open>One pass through the loop body, for a book whose two sides are non-empty.\<close>

definition matchBody :: "string \<Rightarrow> int \<Rightarrow> match_state \<Rightarrow> match_state" where
  "matchBody stockSymbol now s =
     (let bid = hd (m_bids s);
          ask = hd (m_asks s);
          px = executionPrice bid ask;
          qty = executionQuantity bid ask;
          exe = \<lparr>execution_id = m_uuid s,
                 buy_order_id = order_id bid,
                 sell_order_id = order_id ask,
                 ex_stock_symbol = stockSymbol,
                 ex_quantity = qty,
                 ex_price = px,
                 buyer_id = investor_id bid,
                 seller_id = investor_id ask,
                 ex_timestamp = now\<rparr>;
          bid' = fill bid qty;
          ask' = fill ask qty
      in \<lparr>m_bids = (if filled_quantity bid' \<ge> quantity bid' then tl (m_bids s)
                     else bid' # tl (m_bids s)),
          m_asks = (if filled_quantity ask' \<ge> quantity ask' then tl (m_asks s)
                     else ask' # tl (m_asks s)),
          m_executions = m_executions s @ [exe],
          m_orders = (m_orders s)(order_id bid \<mapsto> bid', order_id ask \<mapsto> ask'),
          m_events = m_events s @
            [\<lparr>event_type = ORDER_EXECUTED, ev_order_id = order_id bid,
              ev_stock_symbol = stockSymbol, ev_order_type = OT_str ''BUY'',
              ev_quantity = qty, ev_price = px,
              ev_investor_id = investor_id bid, ev_timestamp = now\<rparr>,
             \<lparr>event_type = ORDER_EXECUTED, ev_order_id = order_id ask,
              ev_stock_symbol = stockSymbol, ev_order_type = OT_str ''SELL'',
              ev_quantity = qty, ev_price = px,
              ev_investor_id = investor_id ask, ev_timestamp = now\<rparr>],
          m_uuid = Suc (m_uuid s)\<rparr>)"

lemma matchBody_shrinks:
  "m_bids s \<noteq> [] \<Longrightarrow> m_asks s \<noteq> [] \<Longrightarrow>
   length (m_bids (matchBody stockSymbol now s)) + length (m_asks (matchBody stockSymbol now s))
     < length (m_bids s) + length (m_asks s)"
  by (cases "m_bids s"; cases "m_asks s")
     (auto simp: matchBody_def Let_def fill_def executionQuantity_def min_def)

function matchLoop :: "string \<Rightarrow> int \<Rightarrow> match_state \<Rightarrow> match_state" where
  "matchLoop stockSymbol now s =
     (if m_bids s \<noteq> [] \<and> m_asks s \<noteq> [] then
        if \<not> canMatch (hd (m_bids s)) (hd (m_asks s)) then s
        else matchLoop stockSymbol now (matchBody stockSymbol now s)
      else s)"
  by pat_completeness auto
termination
  by (relation "measure (\<lambda>(stockSymbol, now, s). length (m_bids s) + length (m_asks s))")
     (auto simp: matchBody_shrinks)

declare matchLoop.simps [simp del]

text \<open>
  \<open>matchOrders(stockSymbol)\<close>: returns at once when the symbol has no book or one side is
  empty, otherwise runs the loop on the book and leaves the mutated book and orders in
  the engine.
\<close>

definition matchOrders :: "int \<Rightarrow> string \<Rightarrow> engine \<Rightarrow> execution list \<times> engine" where
  "matchOrders now stockSymbol e =
     (case orderBooks e stockSymbol of
        None \<Rightarrow> ([], e)
      | Some book \<Rightarrow>
          if bids book = [] \<or> asks book = [] then ([], e)
          else
            let s = matchLoop stockSymbol now
                      \<lparr>m_bids = bids book, m_asks = asks book, m_executions = [],
                       m_orders = orders e, m_events = emitted e, m_uuid = uuid_next e\<rparr>
            in (m_executions s,
                e\<lparr>orderBooks := (orderBooks e)(stockSymbol \<mapsto>
                                   \<lparr>bids = m_bids s, asks = m_asks s\<rparr>),
                  orders := m_orders s,
                  emitted := m_events s,
                  uuid_next := m_uuid s\<rparr>))"

definition bookOf :: "engine \<Rightarrow> string \<Rightarrow> order_book" where
  "bookOf e stockSymbol =
     (case orderBooks e stockSymbol of
        None \<Rightarrow> \<lparr>bids = [], asks = []\<rparr>
      | Some book \<Rightarrow> book)"

definition addOrder :: "int \<Rightarrow> order \<Rightarrow> engine \<Rightarrow> execution list \<times> engine" where
  "addOrder now ord e =
     (let book = bookOf e (stock_symbol ord);
          book' = (if isBuyType (order_type ord)
                   then book\<lparr>bids := sortBids (bids book @ [ord])\<rparr>
                   else book\<lparr>asks := sortAsks (asks book @ [ord])\<rparr>);
          e' = e\<lparr>orderBooks := (orderBooks e)(stock_symbol ord \<mapsto> book'),
                 orders := (orders e)(order_id ord \<mapsto> ord),
                 emitted := emitted e @
                   [\<lparr>event_type = ORDER_PLACED, ev_order_id = order_id ord,
                     ev_stock_symbol = stock_symbol ord, ev_order_type = order_type ord,
                     ev_quantity = quantity ord, ev_price = price ord,
                     ev_investor_id = investor_id ord, ev_timestamp = now\<rparr>]\<rparr>
      in matchOrders now (stock_symbol ord) e')"

text \<open>\<open>cancelOrder(orderId, investorId)\<close>; the result is \<open>success\<close> and the new engine.\<close>

definition cancelOrder :: "int \<Rightarrow> nat \<Rightarrow> string \<Rightarrow> engine \<Rightarrow> bool \<times> engine" where
  "cancelOrder now orderId investorId e =
     (case orders e orderId of
        None \<Rightarrow> (False, e)
      | Some ord \<Rightarrow>
          if investor_id ord \<noteq> investorId then (False, e)
          else if status ord = FILLED \<or> status ord = CANCELED then (False, e)
          else
            let books' =
                  (case orderBooks e (stock_symbol ord) of
                     None \<Rightarrow> orderBooks e
                   | Some book \<Rightarrow>
                       (orderBooks e)(stock_symbol ord \<mapsto>
                         (if isBuyType (order_type ord)
                          then book\<lparr>bids := filter (\<lambda>x. order_id x \<noteq> orderId) (bids book)\<rparr>
                          else book\<lparr>asks := filter (\<lambda>x. order_id x \<noteq> orderId) (asks book)\<rparr>)))
            in (True,
                e\<lparr>orderBooks := books',
                  orders := (orders e)(orderId \<mapsto> ord\<lparr>status := CANCELED\<rparr>),
                  emitted := emitted e @
                    [\<lparr>event_type = ORDER_CANCELED, ev_order_id = orderId,
                      ev_stock_symbol = stock_symbol ord, ev_order_type = order_type ord,
                      ev_quantity = quantity ord - filled_quantity ord, ev_price = price ord,
                      ev_investor_id = investor_id ord, ev_timestamp = now\<rparr>]\<rparr>))"

section \<open>JavaScript numbers\<close>

text \<open>
  A JavaScript number is an IEEE 754 double.  The finite ones are the numbers
  \<open>m * 2\<^sup>e\<close> with \<open>\<bar>m\<bar> < 2\<^sup>5\<^sup>3\<close> and \<open>-1074 \<le> e \<le> 971\<close>; each is modelled by the real
  number it denotes, the two zeros as one.  An arithmetic operation yields the exact
  result rounded to the nearest of them, a tie to the one whose \<open>m\<close> is even, and an
  infinity from \<open>2\<^sup>1\<^sup>0\<^sup>2\<^sup>4\<close> on.  \<open>None\<close> stands for a result that is not finite: an infinity
  or \<open>NaN\<close>.
\<close>

definition pow2 :: "int \<Rightarrow> real" where
  "pow2 e = (if 0 \<le> e then 2 ^ nat e else 1 / 2 ^ nat (- e))"

text \<open>The exponent \<open>k\<close> with \<open>2\<^sup>k \<le> \<bar>x\<bar> < 2\<^sup>k\<^sup>+\<^sup>1\<close>, for \<open>x\<close> other than 0.\<close>

definition binary_exponent :: "real \<Rightarrow> int" where
  "binary_exponent x =
     (if 1 \<le> \<bar>x\<bar> then int (floorlog 2 (nat \<lfloor>\<bar>x\<bar>\<rfloor>)) - 1
      else - int (floorlog 2 (nat (\<lceil>1 / \<bar>x\<bar>\<rceil> - 1))))"

text \<open>The nearest integer, a tie going to the even one.\<close>

definition round_even :: "real \<Rightarrow> int" where
  "round_even x =
     (let f = \<lfloor>x\<rfloor>; r = x - of_int f
      in if r < 1 / 2 then f
         else if 1 / 2 < r then f + 1
         else if even f then f else f + 1)"

text \<open>
  The double nearest to a real number: 53 significant bits from the leading one, and
  none below \<open>2\<^sup>-\<^sup>1\<^sup>0\<^sup>7\<^sup>4\<close>.
\<close>

definition round_double :: "real \<Rightarrow> real option" where
  "round_double x =
     (if x = 0 then Some 0
      else
        let e = max (binary_exponent x - 52) (- 1074);
            y = of_int (round_even (x / pow2 e)) * pow2 e
        in if \<bar>y\<bar> < pow2 1024 then Some y else None)"

text \<open>The operators \<open>*\<close>, \<open>+\<close> and \<open>/\<close> on finite numbers.\<close>

definition times_double :: "real \<Rightarrow> real \<Rightarrow> real option" where
  "times_double a b = round_double (a * b)"

definition plus_double :: "real \<Rightarrow> real \<Rightarrow> real option" where
  "plus_double a b = round_double (a + b)"

definition divide_double :: "real \<Rightarrow> real \<Rightarrow> real option" where
  "divide_double a b = (if b = 0 then None else round_double (a / b))"

section \<open>The shared store (shared/database.js)\<close>

text \<open>
  The tables that the modelled functions read or write.  The holdings, unique in
  \<open>(investor_id, stock_symbol)\<close>, are a map from that key; every other table is the list of
  its rows in insertion order.  Foreign keys are not enforced (the
  store never switches them on).
\<close>

record investor_row =
  inv_investor_id :: string
  inv_name :: string
  inv_email :: string
  balance :: real
  inv_created_at :: int

record holding_row =
  h_quantity :: int
  average_price :: real

record transaction_row =
  transaction_id :: nat
  tx_investor_id :: string
  tx_stock_symbol :: string
  tx_type :: string
  tx_quantity :: int
  tx_price :: real
  total_amount :: real
  tx_timestamp :: int

record trade_row =
  tr_stock_symbol :: string
  tr_order_type :: string
  tr_quantity :: int
  tr_price :: real
  tr_investor_id :: string
  tr_timestamp :: int

record order_row =
  or_order_id :: nat
  or_investor_id :: string
  or_stock_symbol :: string
  or_order_type :: string
  or_quantity :: int
  or_price :: real
  or_filled_quantity :: int
  or_status :: order_status
  or_created_at :: int
  or_updated_at :: int

record database =
  investors :: "investor_row list"
  portfolio :: "string \<times> string \<rightharpoonup> holding_row"
  transactions :: "transaction_row list"
  analytics_trades :: "trade_row list"
  orders_table :: "order_row list"

section \<open>Portfolio manager (investor-service/portfolio-manager.js)\<close>

record register_result =
  rr_investor_id :: string
  rr_success :: bool
  rr_message :: string

text \<open>
  \<open>registerInvestor\<close>; \<open>investorId\<close> is the uuid drawn for the new row.  Both the primary
  key and the unique e-mail column fail with a message containing
  \<open>UNIQUE constraint failed\<close>, which the code answers with \<open>Email already registered\<close>.
\<close>

definition registerInvestor ::
  "int \<Rightarrow> string \<Rightarrow> string \<Rightarrow> string \<Rightarrow> real \<Rightarrow> database \<Rightarrow> register_result \<times> database" where
  "registerInvestor now investorId name email initialBalance db =
     (if investorId \<in> set (map inv_investor_id (investors db)) \<or>
         email \<in> set (map inv_email (investors db))
      then (\<lparr>rr_investor_id = [], rr_success = False,
             rr_message = ''Email already registered''\<rparr>, db)
      else (\<lparr>rr_investor_id = investorId, rr_success = True,
             rr_message = ''Investor registered successfully''\<rparr>,
            db\<lparr>investors := investors db @
                 [\<lparr>inv_investor_id = investorId, inv_name = name, inv_email = email,
                   balance = initialBalance, inv_created_at = now\<rparr>]\<rparr>))"

text \<open>\<open>getInvestor\<close>; \<open>None\<close> stands for the thrown \<open>Investor not found\<close>.\<close>

definition getInvestor :: "database \<Rightarrow> string \<Rightarrow> investor_row option" where
  "getInvestor db investorId = find (\<lambda>r. inv_investor_id r = investorId) (investors db)"

record update_result =
  success :: bool
  message :: string

text \<open>
  \<open>updatePortfolio\<close>.  Quantities are integers, which a double holds exactly below
  \<open>2\<^sup>5\<^sup>3\<close>; prices and amounts are doubles, and each product, sum and quotient is
  rounded.  The result is \<open>None\<close> where one of these numbers is not finite or the
  division is by zero (a stored quantity that the bought quantity cancels).  Inserting
  the transaction fails on a transaction id already present; the \<open>catch\<close> turns that into
  an unsuccessful result, after the holding has been written.
\<close>

definition record_transaction ::
  "int \<Rightarrow> string \<Rightarrow> string \<Rightarrow> int \<Rightarrow> real \<Rightarrow> nat \<Rightarrow> database
     \<Rightarrow> (update_result \<times> database) option" where
  "record_transaction now investorId stockSymbol quantityChange px transactionId db =
     (let transactionType = (if quantityChange > 0 then ''BUY'' else ''SELL'');
          absQuantity = \<bar>quantityChange\<bar>
      in case times_double (of_int absQuantity) px of
           None \<Rightarrow> None
         | Some totalAmount \<Rightarrow>
             if transactionId \<in> transaction_id ` set (transactions db)
             then Some (\<lparr>success = False,
                          message = ''UNIQUE constraint failed: transactions.transaction_id''\<rparr>,
                        db)
             else Some (\<lparr>success = True, message = ''Portfolio updated successfully''\<rparr>,
                        db\<lparr>transactions := transactions db @
                             [\<lparr>transaction_id = transactionId, tx_investor_id = investorId,
                               tx_stock_symbol = stockSymbol, tx_type = transactionType,
                               tx_quantity = absQuantity, tx_price = px,
                               total_amount = totalAmount, tx_timestamp = now\<rparr>]\<rparr>))"

definition updatePortfolio ::
  "int \<Rightarrow> string \<Rightarrow> string \<Rightarrow> int \<Rightarrow> real \<Rightarrow> nat \<Rightarrow> database
     \<Rightarrow> (update_result \<times> database) option" where
  "updatePortfolio now investorId stockSymbol quantityChange px transactionId db =
     (let existing = portfolio db (investorId, stockSymbol);
          finish = record_transaction now investorId stockSymbol quantityChange px transactionId
      in if quantityChange > 0 then
           (case existing of
              Some h \<Rightarrow>
                let newQuantity = h_quantity h + quantityChange
                in (case Option.bind (times_double (of_int (h_quantity h)) (average_price h))
                          (\<lambda>held. Option.bind (times_double (of_int quantityChange) px)
                          (\<lambda>bought. Option.bind (plus_double held bought)
                          (\<lambda>cost. divide_double cost (of_int newQuantity)))) of
                      None \<Rightarrow> None
                    | Some newAveragePrice \<Rightarrow>
                        finish
                          (db\<lparr>portfolio := (portfolio db)((investorId, stockSymbol) \<mapsto>
                                 \<lparr>h_quantity = newQuantity, average_price = newAveragePrice\<rparr>)\<rparr>))
            | None \<Rightarrow>
                finish
                  (db\<lparr>portfolio := (portfolio db)((investorId, stockSymbol) \<mapsto>
                         \<lparr>h_quantity = quantityChange, average_price = px\<rparr>)\<rparr>))
         else
           (case existing of
              None \<Rightarrow> Some (\<lparr>success = False, message = ''Stock not in portfolio''\<rparr>, db)
            | Some h \<Rightarrow>
                let newQuantity = h_quantity h + quantityChange
                in if newQuantity < 0
                   then Some (\<lparr>success = False, message = ''Insufficient shares''\<rparr>, db)
                   else if newQuantity = 0
                   then finish
                          (db\<lparr>portfolio := (portfolio db)((investorId, stockSymbol) := None)\<rparr>)
                   else finish
                          (db\<lparr>portfolio := (portfolio db)((investorId, stockSymbol) \<mapsto>
                                 h\<lparr>h_quantity := newQuantity\<rparr>)\<rparr>)))"

record validation =
  valid :: bool
  v_message :: string
  required_balance :: real
  available_shares :: int

text \<open>
  \<open>validateOrder\<close>; \<open>getInvestor\<close> throws for an unknown investor and the \<open>catch\<close> answers
  with an invalid result.  Every order type other than the string \<open>BUY\<close> takes the SELL
  branch.
\<close>

definition validateOrder ::
  "database \<Rightarrow> string \<Rightarrow> string \<Rightarrow> string \<Rightarrow> int \<Rightarrow> real \<Rightarrow> validation" where
  "validateOrder db investorId stockSymbol orderType qty px =
     (case getInvestor db investorId of
        None \<Rightarrow> \<lparr>valid = False, v_message = ''Investor not found'',
                  required_balance = 0, available_shares = 0\<rparr>
      | Some investor \<Rightarrow>
          if orderType = ''BUY'' then
            let requiredBalance = of_int qty * px
            in if balance investor < requiredBalance
               then \<lparr>valid = False, v_message = ''Insufficient balance'',
                     required_balance = requiredBalance, available_shares = 0\<rparr>
               else \<lparr>valid = True, v_message = ''Order valid'',
                     required_balance = requiredBalance, available_shares = 0\<rparr>
          else
            let availableShares =
                  (case portfolio db (investorId, stockSymbol) of
                     None \<Rightarrow> 0
                   | Some holding \<Rightarrow> h_quantity holding)
            in if availableShares < qty
               then \<lparr>valid = False, v_message = ''Insufficient shares'',
                     required_balance = 0, available_shares = availableShares\<rparr>
               else \<lparr>valid = True, v_message = ''Order valid'',
                     required_balance = 0, available_shares = availableShares\<rparr>)"

section \<open>Analytics engine (analytics-service/analytics-engine.js)\<close>

record top_stock =
  ts_stock_symbol :: string
  total_volume :: int
  trade_count :: nat
  total_value :: real

text \<open>
  The query of \<open>getTopTradedStocks\<close>, clause by clause.  \<open>WHERE timestamp >= ?\<close> selects
  the trades from the cutoff time on (\<open>window_rows\<close>); \<open>GROUP BY stock_symbol\<close> yields one
  row per symbol of the selected trades, in the order of the symbols (\<open>group_by_symbol\<close>);
  \<open>ORDER BY total_volume DESC\<close> sorts on that one column and on nothing else, modelled by
  a stable sort (\<open>ranked\<close>); \<open>LIMIT n\<close> keeps the first \<open>n\<close> rows and, as SQLite defines
  it, all rows when \<open>n\<close> is negative (\<open>sql_limit\<close>).
\<close>

definition aggregate :: "string \<Rightarrow> trade_row list \<Rightarrow> top_stock" where
  "aggregate s rows =
     (let g = filter (\<lambda>t. tr_stock_symbol t = s) rows
      in \<lparr>ts_stock_symbol = s,
          total_volume = sum_list (map tr_quantity g),
          trade_count = length g,
          total_value = sum_list (map (\<lambda>t. of_int (tr_quantity t) * tr_price t) g)\<rparr>)"

definition group_by_symbol :: "trade_row list \<Rightarrow> top_stock list" where
  "group_by_symbol rows =
     map (\<lambda>s. aggregate s rows) (sort (remdups (map tr_stock_symbol rows)))"

definition sql_limit :: "int \<Rightarrow> 'a list \<Rightarrow> 'a list" where
  "sql_limit n xs = (if n < 0 then xs else take (nat n) xs)"

definition window_rows :: "int \<Rightarrow> int \<Rightarrow> database \<Rightarrow> trade_row list" where
  "window_rows now timePeriod db =
     (let cutoffTime = now - timePeriod
      in filter (\<lambda>t. tr_timestamp t \<ge> cutoffTime) (analytics_trades db))"

definition ranked :: "trade_row list \<Rightarrow> top_stock list" where
  "ranked rows = sort_key (\<lambda>g. - total_volume g) (group_by_symbol rows)"

definition getTopTradedStocks :: "int \<Rightarrow> int \<Rightarrow> int \<Rightarrow> database \<Rightarrow> top_stock list" where
  "getTopTradedStocks now limit timePeriod db =
     sql_limit limit (ranked (window_rows now timePeriod db))"




section \<open>Market service (market-service/server.js)\<close>

text \<open>
  The service holds the market state, the matching engine and a connection to the shared
  store.  Its calls to the price, investor and analytics services are sent without
  waiting for an answer (only \<open>ValidateOrder\<close> is awaited), so they are modelled as the
  sequence \<open>calls\<close> of requests sent; \<open>quotes\<close> is what the price service answers to
  \<open>GetPrice\<close>.  The free-text \<open>reason\<close> of a balance update is left out, and the
  factor \<open>0.3\<close> of the placement volume is the fraction \<open>3/10\<close>.
\<close>

datatype rpc_call =
    GetPrice string
  | UpdatePrice string real int bool
  | UpdatePortfolio string string int real nat
  | UpdateBalance string real
  | RecordTrade string string int real string int

record market_service =
  marketState :: string
  matchingEngine :: engine
  store :: database
  quotes :: "string \<rightharpoonup> real"
  calls :: "rpc_call list"

record place_request =
  rq_investor_id :: string
  rq_stock_symbol :: string
  rq_order_type :: js_order_type
  rq_quantity :: int
  rq_price :: real

record place_response =
  pr_order_id :: "nat option"
  pr_success :: bool
  pr_message :: string
  pr_status :: order_status

text \<open>The direction of the price update chosen by \<open>processExecution\<close>.\<close>

definition isBuyPressure :: "engine \<Rightarrow> execution \<Rightarrow> bool" where
  "isBuyPressure e x =
     (case (orders e (buy_order_id x), orders e (sell_order_id x)) of
        (Some buyOrder, Some sellOrder) \<Rightarrow>
          if price buyOrder = 0 \<and> price sellOrder \<noteq> 0 then True
          else if price sellOrder = 0 \<and> price buyOrder \<noteq> 0 then False
          else if created_at buyOrder > created_at sellOrder then True
          else False
      | _ \<Rightarrow> True)"

definition processExecution :: "int \<Rightarrow> execution \<Rightarrow> market_service \<Rightarrow> market_service" where
  "processExecution now x ms =
     (let e = matchingEngine ms;
          stockSymbol = ex_stock_symbol x;
          qty = ex_quantity x;
          px = ex_price x
      in ms\<lparr>calls := calls ms @
               [UpdatePrice stockSymbol px qty (isBuyPressure e x),
                UpdatePortfolio (buyer_id x) stockSymbol qty px (uuid_next e),
                UpdateBalance (buyer_id x) (- (of_int qty * px)),
                UpdatePortfolio (seller_id x) stockSymbol (- qty) px (Suc (uuid_next e)),
                UpdateBalance (seller_id x) (of_int qty * px),
                RecordTrade stockSymbol ''BUY'' qty px (buyer_id x) now,
                RecordTrade stockSymbol ''SELL'' qty px (seller_id x) now],
            matchingEngine := e\<lparr>uuid_next := Suc (Suc (uuid_next e))\<rparr>\<rparr>)"

text \<open>
  \<open>placeOrder\<close>.  Every early return and the \<open>catch\<close> answer with the response \<open>rejected\<close>.
  Inserting the order row fails on an order id already in the table.  The case distinction
  at the end stands for the \<open>TypeError\<close> that reading the status of an order unknown to
  the engine would raise; \<open>addOrder\<close> has stored the order by then
  (\<open>addOrder_stores_order\<close>), so it does not arise.
\<close>

definition rejected :: "string \<Rightarrow> place_response" where
  "rejected msg = \<lparr>pr_order_id = None, pr_success = False, pr_message = msg,
                   pr_status = REJECTED\<rparr>"

definition placement_pressure :: "place_request \<Rightarrow> market_service \<Rightarrow> rpc_call list" where
  "placement_pressure rq ms =
     (let isBuyOrder = (rq_order_type rq = OT_num 0);
          volume = \<lfloor>of_int (rq_quantity rq) * (3 / 10 :: real)\<rfloor>
      in if rq_price rq = 0 then
           (case quotes ms (rq_stock_symbol rq) of
              None \<Rightarrow> [GetPrice (rq_stock_symbol rq)]
            | Some current_price \<Rightarrow>
                [GetPrice (rq_stock_symbol rq),
                 UpdatePrice (rq_stock_symbol rq) current_price volume isBuyOrder])
         else [UpdatePrice (rq_stock_symbol rq) (rq_price rq) volume isBuyOrder])"

definition placeOrder ::
  "int \<Rightarrow> place_request \<Rightarrow> market_service \<Rightarrow> place_response \<times> market_service" where
  "placeOrder now rq ms =
     (if marketState ms \<noteq> ''OPEN'' then (rejected (''Market is '' @ marketState ms), ms)
      else
        let validation =
              validateOrder (store ms) (rq_investor_id rq) (rq_stock_symbol rq)
                (if rq_order_type rq = OT_num 0 then ''BUY'' else ''SELL'')
                (rq_quantity rq) (rq_price rq)
        in if \<not> valid validation then (rejected (v_message validation), ms)
           else
             let e = matchingEngine ms;
                 ord = new_order (uuid_next e) (rq_investor_id rq) (rq_stock_symbol rq)
                         (rq_order_type rq) (rq_quantity rq) (rq_price rq) now;
                 e1 = e\<lparr>uuid_next := Suc (uuid_next e)\<rparr>
             in if order_id ord \<in> or_order_id ` set (orders_table (store ms))
                then (rejected ''UNIQUE constraint failed: orders.order_id'',
                      ms\<lparr>matchingEngine := e1\<rparr>)
                else
                  let row = \<lparr>or_order_id = order_id ord, or_investor_id = investor_id ord,
                             or_stock_symbol = stock_symbol ord,
                             or_order_type =
                               (if rq_order_type rq = OT_num 0 then ''BUY'' else ''SELL''),
                             or_quantity = quantity ord, or_price = price ord,
                             or_filled_quantity = filled_quantity ord,
                             or_status = status ord, or_created_at = created_at ord,
                             or_updated_at = updated_at ord\<rparr>;
                      db1 = (store ms)\<lparr>orders_table := orders_table (store ms) @ [row]\<rparr>;
                      (executions, e2) = addOrder now ord e1;
                      ms1 = ms\<lparr>matchingEngine := e2, store := db1,
                               calls := calls ms @
                                 (if executions = [] then placement_pressure rq ms else [])\<rparr>;
                      ms2 = foldl (\<lambda>m x. processExecution now x m) ms1 executions
                  in (case orders (matchingEngine ms2) (order_id ord) of
                        None \<Rightarrow> (rejected ''Cannot read properties of null'', ms2)
                      | Some updatedOrder \<Rightarrow>
                          (\<lparr>pr_order_id = Some (order_id ord), pr_success = True,
                            pr_message = ''Order placed successfully'',
                            pr_status = status updatedOrder\<rparr>, ms2)))"

section \<open>Histories of the engine\<close>

text \<open>
  The engine starts empty and changes only through the two calls the market service makes:
  \<open>placeOrder\<close> hands \<open>addOrder\<close> a new order under a fresh uuid (\<open>admit\<close>), and
  \<open>cancelOrder\<close> is passed on.  A history is the list of these calls, oldest first.
\<close>

definition admit ::
  "int \<Rightarrow> string \<Rightarrow> string \<Rightarrow> js_order_type \<Rightarrow> int \<Rightarrow> real \<Rightarrow> engine
     \<Rightarrow> execution list \<times> engine" where
  "admit now investor stockSymbol t qty px e =
     addOrder now (new_order (uuid_next e) investor stockSymbol t qty px now)
       (e\<lparr>uuid_next := Suc (uuid_next e)\<rparr>)"

datatype engine_call =
    Place int string string js_order_type int real
  | Cancel int nat string

fun call :: "engine_call \<Rightarrow> engine \<Rightarrow> engine" where
  "call (Place now investor stockSymbol t qty px) e =
     snd (admit now investor stockSymbol t qty px e)"
| "call (Cancel now orderId investorId) e = snd (cancelOrder now orderId investorId e)"

definition run_calls :: "engine_call list \<Rightarrow> engine" where
  "run_calls cs = foldl (\<lambda>e c. call c e) new_engine cs"

text \<open>
  The state of a book between calls: both sides in the order of their comparator, and the
  best bid priced below the best ask.
\<close>

definition book_ok :: "order_book \<Rightarrow> bool" where
  "book_ok b \<longleftrightarrow>
     sorted (map (\<lambda>x. - price x) (bids b)) \<and> sorted (map price (asks b)) \<and>
     (bids b = [] \<or> asks b = [] \<or> price (hd (bids b)) < price (hd (asks b)))"

text \<open>Every book of the engine is in the state \<open>book_ok\<close>.\<close>

definition engine_ok :: "engine \<Rightarrow> bool" where
  "engine_ok e \<longleftrightarrow> (\<forall>sb. book_ok (bookOf e sb))"

text \<open>The loop of \<open>matchOrders\<close> with a bound on the number of passes.\<close>

definition loopCond :: "match_state \<Rightarrow> bool" where
  "loopCond s \<longleftrightarrow>
     m_bids s \<noteq> [] \<and> m_asks s \<noteq> [] \<and> canMatch (hd (m_bids s)) (hd (m_asks s))"

fun matchFuel :: "nat \<Rightarrow> string \<Rightarrow> int \<Rightarrow> match_state \<Rightarrow> match_state" where
  "matchFuel 0 stockSymbol now s = s"
| "matchFuel (Suc n) stockSymbol now s =
     (if loopCond s then matchFuel n stockSymbol now (matchBody stockSymbol now s) else s)"

text \<open>Every execution of a loop state names orders that the engine has stored.\<close>

definition known :: "match_state \<Rightarrow> bool" where
  "known s \<longleftrightarrow> (\<forall>x \<in> set (m_executions s).
      buy_order_id x \<in> dom (m_orders s) \<and> sell_order_id x \<in> dom (m_orders s))"

text \<open>
  The state in which the loop of \<open>matchOrders\<close> starts on a book, and the state after
  \<open>i\<close> passes through its body.
\<close>

definition loop_start :: "order_book \<Rightarrow> engine \<Rightarrow> match_state" where
  "loop_start book e = \<lparr>m_bids = bids book, m_asks = asks book, m_executions = [],
                         m_orders = orders e, m_events = emitted e, m_uuid = uuid_next e\<rparr>"

definition after_passes :: "nat \<Rightarrow> string \<Rightarrow> int \<Rightarrow> match_state \<Rightarrow> match_state" where
  "after_passes i sb now s = (matchBody sb now ^^ i) s"

text \<open>
  The first half of \<open>addOrder\<close>: the order is stored, pushed on its side of the book,
  the side is sorted and \<open>ORDER_PLACED\<close> is emitted; \<open>matchOrders\<close> follows.
\<close>

definition insertOrder :: "int \<Rightarrow> order \<Rightarrow> engine \<Rightarrow> engine" where
  "insertOrder now ord e =
     (let book = bookOf e (stock_symbol ord);
          book' = (if isBuyType (order_type ord)
                   then book\<lparr>bids := sortBids (bids book @ [ord])\<rparr>
                   else book\<lparr>asks := sortAsks (asks book @ [ord])\<rparr>)
      in e\<lparr>orderBooks := (orderBooks e)(stock_symbol ord \<mapsto> book'),
            orders := (orders e)(order_id ord \<mapsto> ord),
            emitted := emitted e @
              [\<lparr>event_type = ORDER_PLACED, ev_order_id = order_id ord,
                ev_stock_symbol = stock_symbol ord, ev_order_type = order_type ord,
                ev_quantity = quantity ord, ev_price = price ord,
                ev_investor_id = investor_id ord, ev_timestamp = now\<rparr>]\<rparr>)"

section \<open>Notions of the specification\<close>

text \<open>
  The aggressor of an execution as the specification words it: of a market and a limit
  order, the market order; of two limit orders, the one that arrived later.  It is read
  off the prices and the timestamps \<open>created_at\<close> of the two orders, and is \<open>None\<close> where
  these do not tell: for two market orders, and for two limit orders of the same
  timestamp.
\<close>

datatype aggressor = Buyer | Seller

definition spec_aggressor :: "order \<Rightarrow> order \<Rightarrow> aggressor option" where
  "spec_aggressor buyOrder sellOrder =
     (if price buyOrder = 0 \<and> price sellOrder \<noteq> 0 then Some Buyer
      else if price sellOrder = 0 \<and> price buyOrder \<noteq> 0 then Some Seller
      else if price buyOrder \<noteq> 0 \<and> price sellOrder \<noteq> 0 then
        (if created_at buyOrder > created_at sellOrder then Some Buyer
         else if created_at sellOrder > created_at buyOrder then Some Seller
         else None)
      else None)"

fun isPriceUpdate :: "rpc_call \<Rightarrow> bool" where
  "isPriceUpdate (UpdatePrice stockSymbol px volume is_buy) = True"
| "isPriceUpdate c = False"

text \<open>
  The execution price as the specification words it: a market order takes the price of
  the limit order it meets, and two limit orders trade at the price of the ask.
\<close>

definition spec_execution_price :: "order \<Rightarrow> order \<Rightarrow> real" where
  "spec_execution_price bid ask =
     (if price bid = 0 then price ask else if price ask = 0 then price bid else price ask)"

text \<open>
  A loop state comes from a book: its orders are orders of the book, by identifier and
  price, and each of its executions is between a bid and an ask of the book that cross,
  at the price of the rule.
\<close>

definition from_book :: "order list \<Rightarrow> order list \<Rightarrow> match_state \<Rightarrow> bool" where
  "from_book bs as s \<longleftrightarrow>
     (\<forall>x \<in> set (m_bids s). \<exists>b \<in> set bs. order_id b = order_id x \<and> price b = price x) \<and>
     (\<forall>x \<in> set (m_asks s). \<exists>a \<in> set as. order_id a = order_id x \<and> price a = price x) \<and>
     (\<forall>x \<in> set (m_executions s). \<exists>b \<in> set bs. \<exists>a \<in> set as.
        buy_order_id x = order_id b \<and> sell_order_id x = order_id a \<and> canMatch b a \<and>
        ex_price x = spec_execution_price b a)"

section \<open>Examples\<close>

text \<open>An empty store and an open market around a new engine, for the examples.\<close>

definition empty_db :: database where
  "empty_db = \<lparr>investors = [], portfolio = Map.empty, transactions = [],
                analytics_trades = [], orders_table = []\<rparr>"

definition open_market :: "database \<Rightarrow> market_service" where
  "open_market db = \<lparr>marketState = ''OPEN'', matchingEngine = new_engine, store = db,
                      quotes = Map.empty, calls = []\<rparr>"

text \<open>A loop state over a given book, for the examples.\<close>

definition book_state :: "order list \<Rightarrow> order list \<Rightarrow> match_state" where
  "book_state bs as = \<lparr>m_bids = bs, m_asks = as, m_executions = [], m_orders = Map.empty,
                        m_events = [], m_uuid = 0\<rparr>"

text \<open>
  A trade log at time 1000: the symbols \<open>A\<close>, \<open>B\<close> and \<open>C\<close> each traded 10 shares within
  the last 100 ms, \<open>B\<close> in two trades; the trade of \<open>D\<close> carries a later timestamp.
\<close>

definition trade :: "string \<Rightarrow> int \<Rightarrow> real \<Rightarrow> int \<Rightarrow> trade_row" where
  "trade s qty px t = \<lparr>tr_stock_symbol = s, tr_order_type = ''BUY'', tr_quantity = qty,
                        tr_price = px, tr_investor_id = ''inv-1'', tr_timestamp = t\<rparr>"

definition trades_db :: database where
  "trades_db = empty_db\<lparr>analytics_trades :=
     [trade ''B'' 5 150 950, trade ''A'' 10 150 960, trade ''C'' 10 150 970,
      trade ''B'' 5 150 980, trade ''D'' 20 150 1500]\<rparr>"

text \<open>A store in which investor \<open>B\<close> holds 100 shares of AAPL at an average price of 140.\<close>

definition seller_db :: database where
  "seller_db = empty_db\<lparr>portfolio :=
     [(''B'', ''AAPL'') \<mapsto> \<lparr>h_quantity = 100, average_price = 140\<rparr>]\<rparr>"

text \<open>A store in which investor \<open>A\<close> holds 1 share of AAPL at an average price of 1.\<close>

definition one_share_db :: database where
  "one_share_db = empty_db\<lparr>portfolio :=
     [(''A'', ''AAPL'') \<mapsto> \<lparr>h_quantity = 1, average_price = 1\<rparr>]\<rparr>"

text \<open>An engine in which a sell of 100 shares of AAPL at 150 rests, placed at time 1.\<close>

definition resting_sell :: engine where
  "resting_sell = run_calls [Place 1 ''S'' ''AAPL'' (OT_num 1) 100 150]"

text \<open>An investor with a balance of 100 asks to buy 10 shares of AAPL at 150.\<close>

definition poor_investor_db :: database where
  "poor_investor_db = snd (registerInvestor 0 ''inv-1'' ''Ann'' ''ann@example.org'' 100 empty_db)"

definition buy_10_at_150 :: place_request where
  "buy_10_at_150 = \<lparr>rq_investor_id = ''inv-1'', rq_stock_symbol = ''AAPL'',
                     rq_order_type = OT_num 0, rq_quantity = 10, rq_price = 150\<rparr>"

text \<open>
  A store with two investors: \<open>S\<close> holds 100 shares of AAPL, \<open>B\<close> has a balance of
  100000.  \<open>S\<close> asks to sell 100 shares of AAPL at 150 and \<open>B\<close> to buy 100 at 150.
\<close>

definition tie_db :: database where
  "tie_db =
     (snd (registerInvestor 0 ''B'' ''Bob'' ''bob@example.org'' 100000
        (snd (registerInvestor 0 ''S'' ''Sue'' ''sue@example.org'' 0 empty_db))))
       \<lparr>portfolio := [(''S'', ''AAPL'') \<mapsto> \<lparr>h_quantity = 100, average_price = 140\<rparr>]\<rparr>"

definition sell_100_at_150 :: place_request where
  "sell_100_at_150 = \<lparr>rq_investor_id = ''S'', rq_stock_symbol = ''AAPL'',
                       rq_order_type = OT_num 1, rq_quantity = 100, rq_price = 150\<rparr>"

definition buy_100_at_150 :: place_request where
  "buy_100_at_150 = \<lparr>rq_investor_id = ''B'', rq_stock_symbol = ''AAPL'',
                      rq_order_type = OT_num 0, rq_quantity = 100, rq_price = 150\<rparr>"


section \<open>The matching loop: invariants\<close>

text \<open>Filling an order changes its filled quantity and status only.\<close>

lemma price_fill [simp]: "price (fill x q) = price x"
  by (simp add: fill_def Let_def)

lemma order_id_fill [simp]: "order_id (fill x q) = order_id x"
  by (simp add: fill_def Let_def)

lemma m_bids_matchBody:
  "m_bids (matchBody sb now s) = tl (m_bids s) \<or>
   m_bids (matchBody sb now s) =
     fill (hd (m_bids s)) (executionQuantity (hd (m_bids s)) (hd (m_asks s))) # tl (m_bids s)"
  by (simp add: matchBody_def Let_def)

lemma m_asks_matchBody:
  "m_asks (matchBody sb now s) = tl (m_asks s) \<or>
   m_asks (matchBody sb now s) =
     fill (hd (m_asks s)) (executionQuantity (hd (m_bids s)) (hd (m_asks s))) # tl (m_asks s)"
  by (simp add: matchBody_def Let_def)

lemma sorted_tl_or_same_key:
  assumes "sorted (map f xs)" "xs \<noteq> []" "ys = tl xs \<or> ys = y # tl xs" "f y = f (hd xs)"
  shows "sorted (map f ys)"
  using assms by (cases xs) auto

lemma sorted_bids_matchBody:
  "m_bids s \<noteq> [] \<Longrightarrow> sorted (map (\<lambda>x. - price x) (m_bids s)) \<Longrightarrow>
   sorted (map (\<lambda>x. - price x) (m_bids (matchBody sb now s)))"
  by (rule sorted_tl_or_same_key [OF _ _ m_bids_matchBody]) simp_all

lemma sorted_asks_matchBody:
  "m_asks s \<noteq> [] \<Longrightarrow> sorted (map price (m_asks s)) \<Longrightarrow>
   sorted (map price (m_asks (matchBody sb now s)))"
  by (rule sorted_tl_or_same_key [OF _ _ m_asks_matchBody]) simp_all

lemma matchLoop_sorted:
  "sorted (map (\<lambda>x. - price x) (m_bids s)) \<Longrightarrow> sorted (map price (m_asks s)) \<Longrightarrow>
   sorted (map (\<lambda>x. - price x) (m_bids (matchLoop sb now s))) \<and>
   sorted (map price (m_asks (matchLoop sb now s)))"
proof (induction sb now s rule: matchLoop.induct)
  case (1 sb now s)
  show ?case
  proof (cases "m_bids s \<noteq> [] \<and> m_asks s \<noteq> [] \<and> canMatch (hd (m_bids s)) (hd (m_asks s))")
    case True
    then have "matchLoop sb now s = matchLoop sb now (matchBody sb now s)"
      by (subst matchLoop.simps) simp
    moreover have "sorted (map (\<lambda>x. - price x) (m_bids (matchLoop sb now (matchBody sb now s)))) \<and>
       sorted (map price (m_asks (matchLoop sb now (matchBody sb now s))))"
      using True "1.prems" by (intro "1.IH") (simp_all add: sorted_bids_matchBody sorted_asks_matchBody)
    ultimately show ?thesis by simp
  next
    case False
    then have "matchLoop sb now s = s"
      by (subst matchLoop.simps) auto
    with "1.prems" show ?thesis by simp
  qed
qed

lemma matchLoop_quiescent:
  "m_bids (matchLoop sb now s) = [] \<or> m_asks (matchLoop sb now s) = [] \<or>
   \<not> canMatch (hd (m_bids (matchLoop sb now s))) (hd (m_asks (matchLoop sb now s)))"
proof (induction sb now s rule: matchLoop.induct)
  case (1 sb now s)
  show ?case
  proof (cases "m_bids s \<noteq> [] \<and> m_asks s \<noteq> [] \<and> canMatch (hd (m_bids s)) (hd (m_asks s))")
    case True
    then have "matchLoop sb now s = matchLoop sb now (matchBody sb now s)"
      by (subst matchLoop.simps) simp
    with True "1.IH" show ?thesis by simp
  next
    case False
    then have "matchLoop sb now s = s"
      by (subst matchLoop.simps) auto
    with False show ?thesis by auto
  qed
qed

lemma matchLoop_unroll: "loopCond s \<Longrightarrow> matchLoop sb now s = matchLoop sb now (matchBody sb now s)"
  by (subst matchLoop.simps) (simp add: loopCond_def)

lemma matchLoop_stop: "\<not> loopCond s \<Longrightarrow> matchLoop sb now s = s"
  by (subst matchLoop.simps) (auto simp: loopCond_def)

lemma loopCond_shrinks:
  "loopCond s \<Longrightarrow>
   length (m_bids (matchBody sb now s)) + length (m_asks (matchBody sb now s))
     < length (m_bids s) + length (m_asks s)"
  by (simp add: loopCond_def matchBody_shrinks)

lemma matchFuel_enough:
  "length (m_bids s) + length (m_asks s) \<le> n \<Longrightarrow> matchFuel n sb now s = matchLoop sb now s"
proof (induction n arbitrary: s)
  case 0
  then have "\<not> loopCond s" by (simp add: loopCond_def)
  then show ?case by (simp add: matchLoop_stop)
next
  case (Suc n)
  show ?case
  proof (cases "loopCond s")
    case True
    have "length (m_bids (matchBody sb now s)) + length (m_asks (matchBody sb now s)) \<le> n"
      using loopCond_shrinks [OF True, of sb now] Suc.prems by simp
    then have "matchFuel n sb now (matchBody sb now s) = matchLoop sb now (matchBody sb now s)"
      by (rule Suc.IH)
    with True show ?thesis by (simp add: matchLoop_unroll)
  next
    case False
    then show ?thesis by (simp add: matchLoop_stop)
  qed
qed

lemma matchLoop_not_loopCond: "\<not> loopCond (matchLoop sb now s)"
  using matchLoop_quiescent [of sb now s] by (auto simp: loopCond_def)

lemma m_executions_matchBody:
  "length (m_executions (matchBody sb now s)) = Suc (length (m_executions s))"
  by (simp add: matchBody_def Let_def)

lemma matchLoop_executions_bound:
  "length (m_executions (matchLoop sb now s))
     \<le> length (m_executions s) + (length (m_bids s) + length (m_asks s))"
proof (induction sb now s rule: matchLoop.induct)
  case (1 sb now s)
  show ?case
  proof (cases "loopCond s")
    case True
    then have "length (m_executions (matchLoop sb now (matchBody sb now s)))
      \<le> length (m_executions (matchBody sb now s)) +
         (length (m_bids (matchBody sb now s)) + length (m_asks (matchBody sb now s)))"
      by (intro "1.IH") (simp_all add: loopCond_def)
    with loopCond_shrinks [OF True, of sb now] True show ?thesis
      by (simp add: matchLoop_unroll m_executions_matchBody)
  next
    case False
    then show ?thesis by (simp add: matchLoop_stop)
  qed
qed

lemma matchBody_quantity:
  "ex_quantity (last (m_executions (matchBody sb now s)))
     = min (quantity (hd (m_bids s)) - filled_quantity (hd (m_bids s)))
           (quantity (hd (m_asks s)) - filled_quantity (hd (m_asks s)))"
  by (simp add: matchBody_def Let_def executionQuantity_def)

lemma matchBody_removes:
  "m_bids (matchBody sb now s) = tl (m_bids s) \<or> m_asks (matchBody sb now s) = tl (m_asks s)"
  by (auto simp: matchBody_def Let_def fill_def executionQuantity_def min_def)


lemma dom_matchBody: "dom (m_orders s) \<subseteq> dom (m_orders (matchBody sb now s))"
  by (auto simp: matchBody_def Let_def)

lemma dom_matchLoop: "dom (m_orders s) \<subseteq> dom (m_orders (matchLoop sb now s))"
proof (induction sb now s rule: matchLoop.induct)
  case (1 sb now s)
  show ?case
  proof (cases "loopCond s")
    case True
    then have "dom (m_orders (matchBody sb now s))
                 \<subseteq> dom (m_orders (matchLoop sb now (matchBody sb now s)))"
      by (intro "1.IH") (simp_all add: loopCond_def)
    with True dom_matchBody [of s sb now] show ?thesis
      by (auto simp: matchLoop_unroll)
  next
    case False
    then show ?thesis by (simp add: matchLoop_stop)
  qed
qed

lemma dom_matchOrders: "dom (orders e) \<subseteq> dom (orders (snd (matchOrders now sb e)))"
  using dom_matchLoop [of "\<lparr>m_bids = bids book, m_asks = asks book, m_executions = [],
        m_orders = orders e, m_events = emitted e, m_uuid = uuid_next e\<rparr>" sb now for book]
  by (auto simp: matchOrders_def Let_def split: option.splits)

lemma addOrder_stores_order: "order_id ord \<in> dom (orders (snd (addOrder now ord e)))"
proof -
  define e' where "e' = e\<lparr>orderBooks := (orderBooks e)(stock_symbol ord \<mapsto>
         (if isBuyType (order_type ord)
          then (bookOf e (stock_symbol ord))\<lparr>bids := sortBids (bids (bookOf e (stock_symbol ord)) @ [ord])\<rparr>
          else (bookOf e (stock_symbol ord))\<lparr>asks := sortAsks (asks (bookOf e (stock_symbol ord)) @ [ord])\<rparr>)),
       orders := (orders e)(order_id ord \<mapsto> ord),
       emitted := emitted e @
         [\<lparr>event_type = ORDER_PLACED, ev_order_id = order_id ord,
           ev_stock_symbol = stock_symbol ord, ev_order_type = order_type ord,
           ev_quantity = quantity ord, ev_price = price ord,
           ev_investor_id = investor_id ord, ev_timestamp = now\<rparr>]\<rparr>"
  have "addOrder now ord e = matchOrders now (stock_symbol ord) e'"
    by (simp add: addOrder_def Let_def e'_def)
  moreover have "order_id ord \<in> dom (orders e')" by (simp add: e'_def)
  ultimately show ?thesis
    using dom_matchOrders [of e' now "stock_symbol ord"] by auto
qed

lemma known_matchBody: "known s \<Longrightarrow> known (matchBody sb now s)"
  by (auto simp: known_def matchBody_def Let_def)

lemma known_matchLoop: "known s \<Longrightarrow> known (matchLoop sb now s)"
proof (induction sb now s rule: matchLoop.induct)
  case (1 sb now s)
  show ?case
  proof (cases "loopCond s")
    case True
    then have "known (matchLoop sb now (matchBody sb now s))"
      using "1.prems" by (intro "1.IH") (simp_all add: loopCond_def known_matchBody)
    with True show ?thesis by (simp add: matchLoop_unroll)
  next
    case False
    with "1.prems" show ?thesis by (simp add: matchLoop_stop)
  qed
qed

lemma matchOrders_executions_known:
  assumes "x \<in> set (fst (matchOrders now sb e))"
  shows "buy_order_id x \<in> dom (orders (snd (matchOrders now sb e))) \<and>
         sell_order_id x \<in> dom (orders (snd (matchOrders now sb e)))"
proof (cases "orderBooks e sb")
  case None
  with assms show ?thesis by (simp add: matchOrders_def)
next
  case (Some book)
  show ?thesis
  proof (cases "bids book = [] \<or> asks book = []")
    case True
    with assms Some show ?thesis by (auto simp: matchOrders_def)
  next
    case False
    define s where "s = matchLoop sb now
       \<lparr>m_bids = bids book, m_asks = asks book, m_executions = [],
        m_orders = orders e, m_events = emitted e, m_uuid = uuid_next e\<rparr>"
    have "known s"
      unfolding s_def by (rule known_matchLoop) (simp add: known_def)
    moreover have "fst (matchOrders now sb e) = m_executions s"
      and "orders (snd (matchOrders now sb e)) = m_orders s"
      using False Some by (simp_all add: matchOrders_def Let_def s_def)
    ultimately show ?thesis using assms by (simp add: known_def)
  qed
qed

lemma addOrder_executions_known:
  assumes "x \<in> set (fst (addOrder now ord e))"
  shows "\<exists>buyOrder sellOrder.
           orders (snd (addOrder now ord e)) (buy_order_id x) = Some buyOrder \<and>
           orders (snd (addOrder now ord e)) (sell_order_id x) = Some sellOrder"
  using matchOrders_executions_known assms unfolding addOrder_def Let_def by blast

text \<open>The passes of the loop, one by one.\<close>

lemma after_passes_0 [simp]: "after_passes 0 sb now s = s"
  by (simp add: after_passes_def)

lemma after_passes_Suc: "after_passes (Suc i) sb now s = after_passes i sb now (matchBody sb now s)"
  by (simp add: after_passes_def funpow_swap1)

lemma after_passes_Suc': "after_passes (Suc i) sb now s = matchBody sb now (after_passes i sb now s)"
  by (simp add: after_passes_def)

text \<open>The loop makes passes as long as the tops cross, and stops at the first state whose tops do not.\<close>

lemma matchLoop_passes:
  "\<exists>k. matchLoop sb now s = after_passes k sb now s \<and>
       (\<forall>i < k. loopCond (after_passes i sb now s)) \<and>
       \<not> loopCond (after_passes k sb now s)"
proof (induction sb now s rule: matchLoop.induct)
  case (1 sb now s)
  show ?case
  proof (cases "loopCond s")
    case True
    then obtain k where k: "matchLoop sb now (matchBody sb now s) = after_passes k sb now (matchBody sb now s)"
        "\<forall>i < k. loopCond (after_passes i sb now (matchBody sb now s))"
        "\<not> loopCond (after_passes k sb now (matchBody sb now s))"
      using "1.IH" by (auto simp: loopCond_def)
    have "\<forall>i < Suc k. loopCond (after_passes i sb now s)"
    proof (intro allI impI)
      fix i assume "i < Suc k"
      then show "loopCond (after_passes i sb now s)"
        using True k(2) by (cases i) (simp_all add: after_passes_Suc)
    qed
    with True k(1,3) show ?thesis
      by (intro exI [of _ "Suc k"]) (simp add: matchLoop_unroll after_passes_Suc)
  next
    case False
    then show ?thesis
      by (intro exI [of _ 0]) (simp add: matchLoop_stop)
  qed
qed

lemma executions_matchBody:
  "m_executions (matchBody sb now s) = m_executions s @
     [\<lparr>execution_id = m_uuid s, buy_order_id = order_id (hd (m_bids s)),
       sell_order_id = order_id (hd (m_asks s)), ex_stock_symbol = sb,
       ex_quantity = executionQuantity (hd (m_bids s)) (hd (m_asks s)),
       ex_price = spec_execution_price (hd (m_bids s)) (hd (m_asks s)),
       buyer_id = investor_id (hd (m_bids s)), seller_id = investor_id (hd (m_asks s)),
       ex_timestamp = now\<rparr>]"
  by (simp add: matchBody_def Let_def executionPrice_def spec_execution_price_def)

lemma length_executions_after_passes:
  "length (m_executions (after_passes k sb now s)) = length (m_executions s) + k"
  by (induction k) (simp_all add: after_passes_Suc' executions_matchBody)

lemma take_executions_after_passes:
  "i \<le> k \<Longrightarrow> take (length (m_executions s) + i) (m_executions (after_passes k sb now s))
     = m_executions (after_passes i sb now s)"
proof (induction k)
  case 0
  then show ?case by simp
next
  case (Suc k)
  show ?case
  proof (cases "i = Suc k")
    case True
    then show ?thesis by (simp add: length_executions_after_passes)
  next
    case False
    with Suc.prems have "i \<le> k" by simp
    then show ?thesis
      using Suc.IH by (simp add: after_passes_Suc' executions_matchBody length_executions_after_passes)
  qed
qed

lemma nth_executions_after_passes:
  assumes "i < k"
  shows "m_executions (after_passes k sb now s) ! (length (m_executions s) + i)
           = last (m_executions (after_passes (Suc i) sb now s))"
proof -
  have "take (length (m_executions s) + Suc i) (m_executions (after_passes k sb now s))
          = m_executions (after_passes (Suc i) sb now s)"
    using assms by (intro take_executions_after_passes) simp
  moreover have "length (m_executions s) + i < length (m_executions (after_passes k sb now s))"
    using assms by (simp add: length_executions_after_passes)
  ultimately show ?thesis
    by (metis add_Suc_right last_snoc take_Suc_conv_app_nth)
qed

text \<open>Every pass keeps the state within the book the loop started on.\<close>

lemma canMatch_prices:
  "price b = price b' \<Longrightarrow> price a = price a' \<Longrightarrow> canMatch b a = canMatch b' a'"
  by (simp add: canMatch_def)

lemma spec_execution_price_prices:
  "price b = price b' \<Longrightarrow> price a = price a' \<Longrightarrow> spec_execution_price b a = spec_execution_price b' a'"
  by (simp add: spec_execution_price_def)

lemma set_m_bids_matchBody:
  assumes "m_bids s \<noteq> []" and "x \<in> set (m_bids (matchBody sb now s))"
  shows "\<exists>y \<in> set (m_bids s). order_id y = order_id x \<and> price y = price x"
  using assms m_bids_matchBody [of sb now s] by (cases "m_bids s") auto

lemma set_m_asks_matchBody:
  assumes "m_asks s \<noteq> []" and "x \<in> set (m_asks (matchBody sb now s))"
  shows "\<exists>y \<in> set (m_asks s). order_id y = order_id x \<and> price y = price x"
  using assms m_asks_matchBody [of sb now s] by (cases "m_asks s") auto

lemma from_book_matchBody:
  assumes "loopCond s" and "from_book bs as s"
  shows "from_book bs as (matchBody sb now s)"
proof -
  have bids: "\<exists>b \<in> set bs. order_id b = order_id x \<and> price b = price x"
    if "x \<in> set (m_bids (matchBody sb now s))" for x
  proof -
    from assms(1) have "m_bids s \<noteq> []" by (simp add: loopCond_def)
    from set_m_bids_matchBody [OF this that] obtain y where
      "y \<in> set (m_bids s)" "order_id y = order_id x" "price y = price x" by blast
    with assms(2) show ?thesis unfolding from_book_def by metis
  qed
  have asks: "\<exists>a \<in> set as. order_id a = order_id x \<and> price a = price x"
    if "x \<in> set (m_asks (matchBody sb now s))" for x
  proof -
    from assms(1) have "m_asks s \<noteq> []" by (simp add: loopCond_def)
    from set_m_asks_matchBody [OF this that] obtain y where
      "y \<in> set (m_asks s)" "order_id y = order_id x" "price y = price x" by blast
    with assms(2) show ?thesis unfolding from_book_def by metis
  qed
  have tops: "hd (m_bids s) \<in> set (m_bids s)" "hd (m_asks s) \<in> set (m_asks s)"
    "canMatch (hd (m_bids s)) (hd (m_asks s))"
    using assms(1) by (simp_all add: loopCond_def)
  obtain b where b: "b \<in> set bs" "order_id b = order_id (hd (m_bids s))"
      "price b = price (hd (m_bids s))"
    using assms(2) tops(1) unfolding from_book_def by blast
  obtain a where a: "a \<in> set as" "order_id a = order_id (hd (m_asks s))"
      "price a = price (hd (m_asks s))"
    using assms(2) tops(2) unfolding from_book_def by blast
  have new: "canMatch b a" "spec_execution_price (hd (m_bids s)) (hd (m_asks s)) = spec_execution_price b a"
    using tops(3) canMatch_prices [OF b(3) a(3)] spec_execution_price_prices [OF b(3) a(3)] by simp_all
  have execs: "\<exists>b \<in> set bs. \<exists>a \<in> set as.
        buy_order_id x = order_id b \<and> sell_order_id x = order_id a \<and> canMatch b a \<and>
        ex_price x = spec_execution_price b a"
    if "x \<in> set (m_executions (matchBody sb now s))" for x
  proof (cases "x \<in> set (m_executions s)")
    case True
    with assms(2) show ?thesis unfolding from_book_def by blast
  next
    case False
    with that have "x = \<lparr>execution_id = m_uuid s, buy_order_id = order_id (hd (m_bids s)),
       sell_order_id = order_id (hd (m_asks s)), ex_stock_symbol = sb,
       ex_quantity = executionQuantity (hd (m_bids s)) (hd (m_asks s)),
       ex_price = spec_execution_price (hd (m_bids s)) (hd (m_asks s)),
       buyer_id = investor_id (hd (m_bids s)), seller_id = investor_id (hd (m_asks s)),
       ex_timestamp = now\<rparr>"
      by (simp add: executions_matchBody)
    with a b new show ?thesis
      by (intro bexI [of _ b] bexI [of _ a]) simp_all
  qed
  show ?thesis
    unfolding from_book_def using bids asks execs by blast
qed

lemma from_book_after_passes:
  "from_book bs as s \<Longrightarrow> \<forall>i < k. loopCond (after_passes i sb now s) \<Longrightarrow>
   from_book bs as (after_passes k sb now s)"
proof (induction k)
  case 0
  then show ?case by simp
next
  case (Suc k)
  then have "from_book bs as (after_passes k sb now s)" "loopCond (after_passes k sb now s)"
    by simp_all
  then show ?case
    by (simp add: after_passes_Suc' from_book_matchBody)
qed

lemma from_book_start: "from_book (bids book) (asks book) (loop_start book e)"
  unfolding from_book_def loop_start_def by auto

text \<open>What \<open>matchOrders\<close> returns, in terms of the passes of its loop.\<close>

lemma matchOrders_passes:
  assumes "orderBooks e sb = Some book"
  shows "\<exists>k. fst (matchOrders now sb e) = m_executions (after_passes k sb now (loop_start book e)) \<and>
             length (fst (matchOrders now sb e)) = k \<and>
             (\<forall>i < k. loopCond (after_passes i sb now (loop_start book e))) \<and>
             \<not> loopCond (after_passes k sb now (loop_start book e))"
proof (cases "bids book = [] \<or> asks book = []")
  case True
  then have "\<not> loopCond (loop_start book e)"
    by (auto simp: loopCond_def loop_start_def)
  moreover have "fst (matchOrders now sb e) = []"
    using True assms by (auto simp: matchOrders_def)
  ultimately show ?thesis
    by (intro exI [of _ 0]) (simp add: loop_start_def)
next
  case False
  obtain k where k: "matchLoop sb now (loop_start book e) = after_passes k sb now (loop_start book e)"
      "\<forall>i < k. loopCond (after_passes i sb now (loop_start book e))"
      "\<not> loopCond (after_passes k sb now (loop_start book e))"
    using matchLoop_passes by blast
  have "fst (matchOrders now sb e) = m_executions (matchLoop sb now (loop_start book e))"
    using False assms by (simp add: matchOrders_def Let_def loop_start_def)
  with k have 1: "fst (matchOrders now sb e) = m_executions (after_passes k sb now (loop_start book e))"
    by simp
  then have "length (fst (matchOrders now sb e)) = k"
    by (simp add: length_executions_after_passes loop_start_def)
  with 1 k(2,3) show ?thesis by blast
qed

lemma addOrder_insertOrder:
  "addOrder now ord e = matchOrders now (stock_symbol ord) (insertOrder now ord e)"
  by (simp add: addOrder_def insertOrder_def Let_def)

lemma addOrder_prices:
  assumes "orderBooks (insertOrder now ord e) (stock_symbol ord) = Some book"
  shows "\<forall>x \<in> set (fst (addOrder now ord e)). \<exists>bid \<in> set (bids book). \<exists>ask \<in> set (asks book).
            buy_order_id x = order_id bid \<and> sell_order_id x = order_id ask \<and>
            canMatch bid ask \<and> ex_price x = spec_execution_price bid ask"
proof -
  obtain k where k: "fst (addOrder now ord e)
        = m_executions (after_passes k (stock_symbol ord) now (loop_start book (insertOrder now ord e)))"
      "\<forall>i < k. loopCond (after_passes i (stock_symbol ord) now (loop_start book (insertOrder now ord e)))"
    using matchOrders_passes [OF assms] unfolding addOrder_insertOrder by blast
  have "from_book (bids book) (asks book)
          (after_passes k (stock_symbol ord) now (loop_start book (insertOrder now ord e)))"
    using from_book_start k(2) by (rule from_book_after_passes)
  then show ?thesis
    unfolding from_book_def k(1) by blast
qed

section \<open>The books between calls\<close>

text \<open>
  \<open>addOrder\<close> and \<open>cancelOrder\<close> keep every book of the engine in the state \<open>book_ok\<close>:
  sorting restores the order of the side that receives the order, a pass of the loop
  removes the top of a side or leaves its price as it was, the loop ends on a book whose
  tops do not match, and removing an order keeps a sorted side sorted.
\<close>

lemma not_canMatch_lt: "\<not> canMatch b a \<Longrightarrow> price b < price a"
  by (simp add: canMatch_def)

lemma bookOf_matchOrders_other:
  "sb' \<noteq> sb \<Longrightarrow> bookOf (snd (matchOrders now sb e)) sb' = bookOf e sb'"
  by (simp add: matchOrders_def bookOf_def Let_def split: option.splits)

lemma bookOf_matchOrders_same:
  assumes "orderBooks e sb = Some book"
    and "sorted (map (\<lambda>x. - price x) (bids book))" and "sorted (map price (asks book))"
  shows "book_ok (bookOf (snd (matchOrders now sb e)) sb)"
proof (cases "bids book = [] \<or> asks book = []")
  case True
  with assms show ?thesis
    by (auto simp: matchOrders_def bookOf_def book_ok_def)
next
  case False
  define s where "s = matchLoop sb now
     \<lparr>m_bids = bids book, m_asks = asks book, m_executions = [],
      m_orders = orders e, m_events = emitted e, m_uuid = uuid_next e\<rparr>"
  have bk: "bookOf (snd (matchOrders now sb e)) sb = \<lparr>bids = m_bids s, asks = m_asks s\<rparr>"
    using False assms(1) by (simp add: matchOrders_def bookOf_def Let_def s_def)
  have srt: "sorted (map (\<lambda>x. - price x) (m_bids s)) \<and> sorted (map price (m_asks s))"
    unfolding s_def using assms(2,3) by (intro matchLoop_sorted) simp_all
  have q: "m_bids s = [] \<or> m_asks s = [] \<or> \<not> canMatch (hd (m_bids s)) (hd (m_asks s))"
    unfolding s_def by (rule matchLoop_quiescent)
  show ?thesis
    unfolding bk book_ok_def using srt q by (auto dest: not_canMatch_lt)
qed

lemma sorted_sortBids: "sorted (map (\<lambda>x. - price x) (sortBids xs))"
  by (simp add: sortBids_def)

lemma sorted_sortAsks: "sorted (map price (sortAsks xs))"
  by (simp add: sortAsks_def)

lemma book_ok_sorted:
  "book_ok b \<Longrightarrow> sorted (map (\<lambda>x. - price x) (bids b)) \<and> sorted (map price (asks b))"
  by (simp add: book_ok_def)

lemma book_ok_bookOf: "engine_ok e \<Longrightarrow> book_ok (bookOf e sb)"
  by (simp add: engine_ok_def)

lemma addOrder_engine_ok:
  assumes "engine_ok e"
  shows "engine_ok (snd (addOrder now ord e))"
proof -
  define book where "book = bookOf e (stock_symbol ord)"
  define book' where "book' = (if isBuyType (order_type ord)
                   then book\<lparr>bids := sortBids (bids book @ [ord])\<rparr>
                   else book\<lparr>asks := sortAsks (asks book @ [ord])\<rparr>)"
  define e' where "e' = e\<lparr>orderBooks := (orderBooks e)(stock_symbol ord \<mapsto> book'),
                 orders := (orders e)(order_id ord \<mapsto> ord),
                 emitted := emitted e @
                   [\<lparr>event_type = ORDER_PLACED, ev_order_id = order_id ord,
                     ev_stock_symbol = stock_symbol ord, ev_order_type = order_type ord,
                     ev_quantity = quantity ord, ev_price = price ord,
                     ev_investor_id = investor_id ord, ev_timestamp = now\<rparr>]\<rparr>"
  have eq: "addOrder now ord e = matchOrders now (stock_symbol ord) e'"
    by (simp add: addOrder_def Let_def e'_def book'_def book_def)
  have ok: "book_ok book" unfolding book_def using assms by (rule book_ok_bookOf)
  have s': "sorted (map (\<lambda>x. - price x) (bids book')) \<and> sorted (map price (asks book'))"
    using book_ok_sorted [OF ok] by (simp add: book'_def sorted_sortBids sorted_sortAsks)
  have look: "orderBooks e' (stock_symbol ord) = Some book'" by (simp add: e'_def)
  have other: "bookOf e' sb = bookOf e sb" if "sb \<noteq> stock_symbol ord" for sb
    using that by (simp add: e'_def bookOf_def)
  show ?thesis
    unfolding engine_ok_def
  proof
    fix sb
    show "book_ok (bookOf (snd (addOrder now ord e)) sb)"
    proof (cases "sb = stock_symbol ord")
      case True
      then show ?thesis
        unfolding eq using bookOf_matchOrders_same [OF look] s' by simp
    next
      case False
      then show ?thesis
        unfolding eq using assms
        by (simp add: bookOf_matchOrders_other other book_ok_bookOf)
    qed
  qed
qed

lemma sorted_hd_le: "sorted (map f xs) \<Longrightarrow> x \<in> set xs \<Longrightarrow> f (hd xs) \<le> f x"
  by (cases xs) auto

lemma sorted_filter_hd:
  assumes "sorted (map f xs)" and "filter P xs \<noteq> []"
  shows "f (hd xs) \<le> f (hd (filter P xs))"
proof -
  have "hd (filter P xs) \<in> set (filter P xs)"
    using assms(2) by (rule hd_in_set)
  then have "hd (filter P xs) \<in> set xs" by simp
  with assms(1) show ?thesis by (rule sorted_hd_le)
qed

lemma book_ok_filter_bids:
  assumes "book_ok b"
  shows "book_ok (b\<lparr>bids := filter P (bids b)\<rparr>)"
proof (cases "filter P (bids b) = [] \<or> asks b = []")
  case True
  with assms show ?thesis by (auto simp: book_ok_def sorted_filter)
next
  case False
  then have ne: "filter P (bids b) \<noteq> []" "bids b \<noteq> []" "asks b \<noteq> []" by auto
  have "- price (hd (bids b)) \<le> - price (hd (filter P (bids b)))"
    using assms ne(1) by (intro sorted_filter_hd) (simp_all add: book_ok_def)
  moreover have "price (hd (bids b)) < price (hd (asks b))"
    using assms ne by (simp add: book_ok_def)
  ultimately have "price (hd (filter P (bids b))) < price (hd (asks b))" by simp
  with assms show ?thesis by (simp add: book_ok_def sorted_filter)
qed

lemma book_ok_filter_asks:
  assumes "book_ok b"
  shows "book_ok (b\<lparr>asks := filter P (asks b)\<rparr>)"
proof (cases "filter P (asks b) = [] \<or> bids b = []")
  case True
  with assms show ?thesis by (auto simp: book_ok_def sorted_filter)
next
  case False
  then have ne: "filter P (asks b) \<noteq> []" "asks b \<noteq> []" "bids b \<noteq> []" by auto
  have "price (hd (asks b)) \<le> price (hd (filter P (asks b)))"
    using assms ne(1) by (intro sorted_filter_hd) (simp_all add: book_ok_def)
  moreover have "price (hd (bids b)) < price (hd (asks b))"
    using assms ne by (simp add: book_ok_def)
  ultimately have "price (hd (bids b)) < price (hd (filter P (asks b)))" by simp
  with assms show ?thesis by (simp add: book_ok_def sorted_filter)
qed

lemma cancelOrder_engine_ok:
  assumes "engine_ok e"
  shows "engine_ok (snd (cancelOrder now orderId investorId e))"
  unfolding engine_ok_def
proof
  fix sb
  have ok: "book_ok (bookOf e sb)" using assms by (rule book_ok_bookOf)
  have ok': "book_ok b" if "orderBooks e sb = Some b" for b
    using ok that by (simp add: bookOf_def)
  show "book_ok (bookOf (snd (cancelOrder now orderId investorId e)) sb)"
    using ok ok'
    by (auto simp: cancelOrder_def bookOf_def Let_def book_ok_filter_bids book_ok_filter_asks
             split: option.splits)
qed

lemma engine_ok_new: "engine_ok new_engine"
  by (simp add: engine_ok_def new_engine_def bookOf_def book_ok_def)

lemma engine_ok_uuid: "engine_ok (e\<lparr>uuid_next := n\<rparr>) = engine_ok e"
  by (simp add: engine_ok_def bookOf_def)

lemma engine_ok_foldl:
  "engine_ok e \<Longrightarrow> engine_ok (foldl (\<lambda>e c. call c e) e cs)"
proof (induction cs arbitrary: e)
  case Nil
  then show ?case by simp
next
  case (Cons c cs)
  have "engine_ok (call c e)"
    using Cons.prems
    by (cases c) (simp_all add: admit_def addOrder_engine_ok engine_ok_uuid cancelOrder_engine_ok)
  then show ?case using Cons.IH by simp
qed

lemma engine_ok_run_calls: "engine_ok (run_calls cs)"
  unfolding run_calls_def by (rule engine_ok_foldl [OF engine_ok_new])

section \<open>Claims about the matching engine\<close>

lemmas engine_eval = run_calls_def new_engine_def admit_def addOrder_def cancelOrder_def
  matchOrders_def bookOf_def isBuyType_def sortBids_def sortAsks_def new_order_def
  matchLoop.simps matchBody_def canMatch_def executionPrice_def executionQuantity_def
  fill_def Let_def

text \<open>
  C1.  The executions that \<open>matchOrders\<close> returns for a book are the passes of its loop,
  in order: the \<open>i\<close>-th execution is between the bid and the ask that stand at the top
  of the two sides after \<open>i\<close> passes, these cross, and its price is the ask's price if
  the bid is a market order (price 0), else the bid's price if the ask is a market order,
  else the ask's price; after the last execution the tops no longer cross.  Every
  execution is between a bid and an ask of the book that cross, at the price of the rule,
  and a book whose tops cross yields at least one execution, the first at the price the
  rule gives for these tops.
\<close>

theorem execution_price_rule:
  assumes "orderBooks e sb = Some book"
  shows "(\<forall>i < length (fst (matchOrders now sb e)).
            m_bids (after_passes i sb now (loop_start book e)) \<noteq> [] \<and>
            m_asks (after_passes i sb now (loop_start book e)) \<noteq> [] \<and>
            canMatch (hd (m_bids (after_passes i sb now (loop_start book e))))
                     (hd (m_asks (after_passes i sb now (loop_start book e)))) \<and>
            buy_order_id (fst (matchOrders now sb e) ! i)
              = order_id (hd (m_bids (after_passes i sb now (loop_start book e)))) \<and>
            sell_order_id (fst (matchOrders now sb e) ! i)
              = order_id (hd (m_asks (after_passes i sb now (loop_start book e)))) \<and>
            ex_price (fst (matchOrders now sb e) ! i)
              = spec_execution_price (hd (m_bids (after_passes i sb now (loop_start book e))))
                            (hd (m_asks (after_passes i sb now (loop_start book e))))) \<and>
         \<not> loopCond (after_passes (length (fst (matchOrders now sb e))) sb now (loop_start book e)) \<and>
         (\<forall>x \<in> set (fst (matchOrders now sb e)). \<exists>bid \<in> set (bids book). \<exists>ask \<in> set (asks book).
            buy_order_id x = order_id bid \<and> sell_order_id x = order_id ask \<and>
            canMatch bid ask \<and> ex_price x = spec_execution_price bid ask) \<and>
         (bids book \<noteq> [] \<and> asks book \<noteq> [] \<and> canMatch (hd (bids book)) (hd (asks book)) \<longrightarrow>
            fst (matchOrders now sb e) \<noteq> [] \<and>
            ex_price (hd (fst (matchOrders now sb e)))
              = spec_execution_price (hd (bids book)) (hd (asks book)))"
proof -
  let ?s = "loop_start book e"
  let ?xs = "fst (matchOrders now sb e)"
  obtain k where k: "?xs = m_executions (after_passes k sb now ?s)" "length ?xs = k"
      "\<forall>i < k. loopCond (after_passes i sb now ?s)" "\<not> loopCond (after_passes k sb now ?s)"
    using matchOrders_passes [OF assms] by blast
  have nth: "?xs ! i = last (m_executions (matchBody sb now (after_passes i sb now ?s)))"
    if "i < k" for i
    using nth_executions_after_passes [OF that, of sb now ?s] k(1)
    by (simp add: loop_start_def after_passes_Suc')
  have A: "m_bids (after_passes i sb now ?s) \<noteq> [] \<and>
            m_asks (after_passes i sb now ?s) \<noteq> [] \<and>
            canMatch (hd (m_bids (after_passes i sb now ?s))) (hd (m_asks (after_passes i sb now ?s))) \<and>
            buy_order_id (?xs ! i) = order_id (hd (m_bids (after_passes i sb now ?s))) \<and>
            sell_order_id (?xs ! i) = order_id (hd (m_asks (after_passes i sb now ?s))) \<and>
            ex_price (?xs ! i) = spec_execution_price (hd (m_bids (after_passes i sb now ?s)))
                            (hd (m_asks (after_passes i sb now ?s)))"
    if "i < length ?xs" for i
  proof -
    from that k(2) have i: "i < k" by simp
    with k(3) have "loopCond (after_passes i sb now ?s)" by simp
    then show ?thesis
      by (simp add: nth [OF i] executions_matchBody loopCond_def)
  qed
  have B: "\<not> loopCond (after_passes (length ?xs) sb now ?s)"
    using k(2,4) by simp
  have "from_book (bids book) (asks book) (after_passes k sb now ?s)"
    using from_book_start k(3) by (rule from_book_after_passes)
  then have C: "\<forall>x \<in> set ?xs. \<exists>bid \<in> set (bids book). \<exists>ask \<in> set (asks book).
            buy_order_id x = order_id bid \<and> sell_order_id x = order_id ask \<and>
            canMatch bid ask \<and> ex_price x = spec_execution_price bid ask"
    unfolding from_book_def k(1) by blast
  have D: "?xs \<noteq> [] \<and> ex_price (hd ?xs) = spec_execution_price (hd (bids book)) (hd (asks book))"
    if c: "bids book \<noteq> [] \<and> asks book \<noteq> [] \<and> canMatch (hd (bids book)) (hd (asks book))"
  proof -
    from c have "loopCond (after_passes 0 sb now ?s)"
      by (simp add: loopCond_def loop_start_def)
    with B have "length ?xs \<noteq> 0" by (metis)
    then have ne: "?xs \<noteq> []" and 0: "0 < length ?xs" by simp_all
    from A [OF 0] have "ex_price (?xs ! 0) = spec_execution_price (hd (bids book)) (hd (asks book))"
      by (simp add: loop_start_def)
    with ne show ?thesis by (simp add: hd_conv_nth)
  qed
  show ?thesis using A B C D by blast
qed

text \<open>
  A market buy of 40 shares is inserted into a book with asks of 20 at 150 and 30 at 151:
  it trades 20 at 150 and 20 at 151, the prices of the limit orders it meets.
\<close>

theorem execution_price_rule_witness:
  "orderBooks (insertOrder 4 (new_order 2 ''A'' ''AAPL'' (OT_num 0) 40 0 4)
      (run_calls [Place 1 ''S'' ''AAPL'' (OT_num 1) 20 150,
                  Place 2 ''T'' ''AAPL'' (OT_num 1) 30 151])) ''AAPL''
     = Some \<lparr>bids = [new_order 2 ''A'' ''AAPL'' (OT_num 0) 40 0 4],
             asks = [new_order 0 ''S'' ''AAPL'' (OT_num 1) 20 150 1,
                     new_order 1 ''T'' ''AAPL'' (OT_num 1) 30 151 2]\<rparr> \<and>
   map (\<lambda>x. (buy_order_id x, sell_order_id x, ex_quantity x, ex_price x))
     (fst (matchOrders 4 ''AAPL'' (insertOrder 4 (new_order 2 ''A'' ''AAPL'' (OT_num 0) 40 0 4)
        (run_calls [Place 1 ''S'' ''AAPL'' (OT_num 1) 20 150,
                    Place 2 ''T'' ''AAPL'' (OT_num 1) 30 151]))))
     = [(2, 0, 20, 150), (2, 1, 20, 151)] \<and>
   spec_execution_price (new_order 2 ''A'' ''AAPL'' (OT_num 0) 40 0 4)
                        (new_order 0 ''S'' ''AAPL'' (OT_num 1) 20 150 1) = 150"
proof -
  have book: "orderBooks (insertOrder 4 (new_order 2 ''A'' ''AAPL'' (OT_num 0) 40 0 4)
      (run_calls [Place 1 ''S'' ''AAPL'' (OT_num 1) 20 150,
                  Place 2 ''T'' ''AAPL'' (OT_num 1) 30 151])) ''AAPL''
     = Some \<lparr>bids = [new_order 2 ''A'' ''AAPL'' (OT_num 0) 40 0 4],
             asks = [new_order 0 ''S'' ''AAPL'' (OT_num 1) 20 150 1,
                     new_order 1 ''T'' ''AAPL'' (OT_num 1) 30 151 2]\<rparr>"
    by (simp add: engine_eval insertOrder_def)
  show ?thesis
    using execution_price_rule [OF book, of 4] book
    by (simp add: engine_eval insertOrder_def spec_execution_price_def)
qed

text \<open>
  C2.  The claim asks for a market order to stand ahead of every limit order on its side.
  The comparator of the bids orders by descending price and a market order has price 0:
  with a limit bid at 100 (order 0) and an ask at 105 (order 1) resting, a market buy
  (order 2) is placed behind the limit bid and trades with nothing, although an ask is
  there.  On the other side the ascending comparator does put a market sell first.
\<close>

theorem market_buy_behind_limit:
  "map order_id (bids (bookOf (run_calls
      [Place 1 ''A'' ''AAPL'' (OT_num 0) 10 100, Place 2 ''B'' ''AAPL'' (OT_num 1) 10 105,
       Place 3 ''C'' ''AAPL'' (OT_num 0) 10 0]) ''AAPL'')) = [0, 2] \<and>
   fst (admit 3 ''C'' ''AAPL'' (OT_num 0) 10 0 (run_calls
      [Place 1 ''A'' ''AAPL'' (OT_num 0) 10 100, Place 2 ''B'' ''AAPL'' (OT_num 1) 10 105])) = [] \<and>
   map order_id (asks (bookOf (run_calls
      [Place 1 ''B'' ''AAPL'' (OT_num 1) 10 105, Place 2 ''C'' ''AAPL'' (OT_num 1) 10 0])
      ''AAPL'')) = [1, 0]"
  by (simp add: engine_eval)

text \<open>
  C4.  After \<open>addOrder\<close> returns, in every history of the engine and for the book of
  every symbol: when the top bid and the top ask are both limit orders, the best bid is
  priced strictly below the best ask.
\<close>

theorem book_integrity:
  assumes "addOrder now ord (run_calls cs) = (xs, e')"
    and "bids (bookOf e' sb) = b # bs" and "asks (bookOf e' sb) = a # as"
    and "price b \<noteq> 0" and "price a \<noteq> 0"
  shows "price b < price a"
proof -
  have "engine_ok (snd (addOrder now ord (run_calls cs)))"
    by (rule addOrder_engine_ok [OF engine_ok_run_calls])
  then have "book_ok (bookOf e' sb)"
    using assms(1) by (simp add: engine_ok_def)
  then show ?thesis
    using assms(2,3) by (simp add: book_ok_def)
qed

text \<open>
  A bid at 100 and an ask of 10 shares at 105 rest; a bid of 5 shares at 106 is added and
  trades with the ask, which stays with 5 shares filled: the tops are 100 and 105.
\<close>

theorem book_integrity_witness:
  "bids (bookOf (snd (addOrder 3 (new_order 2 ''C'' ''AAPL'' (OT_num 0) 5 106 3)
          (run_calls [Place 1 ''A'' ''AAPL'' (OT_num 0) 10 100,
                      Place 2 ''B'' ''AAPL'' (OT_num 1) 10 105]))) ''AAPL'')
     = [new_order 0 ''A'' ''AAPL'' (OT_num 0) 10 100 1] \<and>
   asks (bookOf (snd (addOrder 3 (new_order 2 ''C'' ''AAPL'' (OT_num 0) 5 106 3)
          (run_calls [Place 1 ''A'' ''AAPL'' (OT_num 0) 10 100,
                      Place 2 ''B'' ''AAPL'' (OT_num 1) 10 105]))) ''AAPL'')
     = [(new_order 1 ''B'' ''AAPL'' (OT_num 1) 10 105 2)
           \<lparr>filled_quantity := 5, status := PARTIALLY_FILLED\<rparr>] \<and>
   price (new_order 0 ''A'' ''AAPL'' (OT_num 0) 10 100 1) \<noteq> 0 \<and>
   price ((new_order 1 ''B'' ''AAPL'' (OT_num 1) 10 105 2)
           \<lparr>filled_quantity := 5, status := PARTIALLY_FILLED\<rparr>) \<noteq> 0 \<and>
   price (new_order 0 ''A'' ''AAPL'' (OT_num 0) 10 100 1)
     < price ((new_order 1 ''B'' ''AAPL'' (OT_num 1) 10 105 2)
           \<lparr>filled_quantity := 5, status := PARTIALLY_FILLED\<rparr>)"
proof -
  let ?r = "addOrder 3 (new_order 2 ''C'' ''AAPL'' (OT_num 0) 5 106 3)
          (run_calls [Place 1 ''A'' ''AAPL'' (OT_num 0) 10 100,
                      Place 2 ''B'' ''AAPL'' (OT_num 1) 10 105])"
  have r: "?r = (fst ?r, snd ?r)" by simp
  have b: "bids (bookOf (snd ?r) ''AAPL'') = new_order 0 ''A'' ''AAPL'' (OT_num 0) 10 100 1 # []"
    by (simp add: engine_eval)
  have a: "asks (bookOf (snd ?r) ''AAPL'')
     = (new_order 1 ''B'' ''AAPL'' (OT_num 1) 10 105 2)
           \<lparr>filled_quantity := 5, status := PARTIALLY_FILLED\<rparr> # []"
    by (simp add: engine_eval)
  have p: "price (new_order 0 ''A'' ''AAPL'' (OT_num 0) 10 100 1) \<noteq> 0"
    "price ((new_order 1 ''B'' ''AAPL'' (OT_num 1) 10 105 2)
           \<lparr>filled_quantity := 5, status := PARTIALLY_FILLED\<rparr>) \<noteq> 0"
    by (simp_all add: new_order_def)
  show ?thesis
    using book_integrity [OF r b a p] a b p by simp
qed

text \<open>
  C10.  The loop of \<open>matchOrders\<close> terminates on every book, also one with orders that have
  nothing left to fill: as many passes as the book has orders always reach a state in
  which the loop condition fails, and that state is the result of the loop; the loop adds at
  most that many executions.  Each pass executes the minimum of the two remaining
  quantities and removes the top bid or the top ask, so that the book shrinks.
\<close>

theorem matchOrders_terminates:
  "matchLoop sb now s = matchFuel (length (m_bids s) + length (m_asks s)) sb now s \<and>
   \<not> loopCond (matchLoop sb now s) \<and>
   length (m_executions (matchLoop sb now s))
     \<le> length (m_executions s) + (length (m_bids s) + length (m_asks s)) \<and>
   (loopCond s \<longrightarrow>
      ex_quantity (last (m_executions (matchBody sb now s)))
        = min (quantity (hd (m_bids s)) - filled_quantity (hd (m_bids s)))
              (quantity (hd (m_asks s)) - filled_quantity (hd (m_asks s))) \<and>
      (m_bids (matchBody sb now s) = tl (m_bids s) \<or>
       m_asks (matchBody sb now s) = tl (m_asks s)) \<and>
      length (m_bids (matchBody sb now s)) + length (m_asks (matchBody sb now s))
        < length (m_bids s) + length (m_asks s))"
  using matchFuel_enough [of s _ sb now, OF order_refl] matchLoop_not_loopCond [of sb now s]
    matchLoop_executions_bound [of sb now s] matchBody_quantity [of sb now s]
    matchBody_removes [of sb now s] loopCond_shrinks [of s sb now]
  by simp

text \<open>
  A market buy of 40 shares against asks of 20 at 150 and 30 at 151: two passes, 20 shares
  at 150 and 20 at 151; the bid side is then empty and the second ask keeps 10 shares.
\<close>

theorem matchOrders_terminates_witness:
  "loopCond (book_state [new_order 3 ''A'' ''AAPL'' (OT_num 0) 40 0 3]
                        [new_order 1 ''S'' ''AAPL'' (OT_num 1) 20 150 1,
                         new_order 2 ''T'' ''AAPL'' (OT_num 1) 30 151 2]) \<and>
   map (\<lambda>x. (ex_quantity x, ex_price x))
     (m_executions (matchLoop ''AAPL'' 4
        (book_state [new_order 3 ''A'' ''AAPL'' (OT_num 0) 40 0 3]
                    [new_order 1 ''S'' ''AAPL'' (OT_num 1) 20 150 1,
                     new_order 2 ''T'' ''AAPL'' (OT_num 1) 30 151 2])))
     = [(20, 150), (20, 151)] \<and>
   m_bids (matchLoop ''AAPL'' 4
        (book_state [new_order 3 ''A'' ''AAPL'' (OT_num 0) 40 0 3]
                    [new_order 1 ''S'' ''AAPL'' (OT_num 1) 20 150 1,
                     new_order 2 ''T'' ''AAPL'' (OT_num 1) 30 151 2])) = [] \<and>
   map (\<lambda>x. quantity x - filled_quantity x) (m_asks (matchLoop ''AAPL'' 4
        (book_state [new_order 3 ''A'' ''AAPL'' (OT_num 0) 40 0 3]
                    [new_order 1 ''S'' ''AAPL'' (OT_num 1) 20 150 1,
                     new_order 2 ''T'' ''AAPL'' (OT_num 1) 30 151 2]))) = [10]"
  using matchOrders_terminates [of "''AAPL''" 4
          "book_state [new_order 3 ''A'' ''AAPL'' (OT_num 0) 40 0 3]
                      [new_order 1 ''S'' ''AAPL'' (OT_num 1) 20 150 1,
                       new_order 2 ''T'' ''AAPL'' (OT_num 1) 30 151 2]"]
  by (simp add: book_state_def new_order_def loopCond_def canMatch_def matchBody_def
        executionQuantity_def executionPrice_def fill_def Let_def numeral_3_eq_3)

section \<open>Rounding to double precision\<close>

text \<open>The exponent brackets the number.\<close>

lemma pow2_pos [simp]: "0 < pow2 e"
  by (simp add: pow2_def)

lemma pow2_nonneg [simp]: "0 \<le> pow2 e"
  by (simp add: less_imp_le)

lemma pow2_add: "pow2 (a + b) = pow2 a * pow2 b"
proof -
  have "pow2 e = 2 powr (of_int e)" for e
    by (simp add: pow2_def powr_realpow [symmetric] powr_minus field_simps)
  then show ?thesis by (simp add: powr_add)
qed

lemma pow2_mono: "a \<le> b \<Longrightarrow> pow2 a \<le> pow2 b"
proof -
  have "pow2 e = 2 powr (of_int e)" for e
    by (simp add: pow2_def powr_realpow [symmetric] powr_minus field_simps)
  then show "a \<le> b \<Longrightarrow> pow2 a \<le> pow2 b" by simp
qed

lemma binary_exponent_bounds:
  assumes "x \<noteq> 0"
  shows "pow2 (binary_exponent x) \<le> \<bar>x\<bar> \<and> \<bar>x\<bar> < pow2 (binary_exponent x + 1)"
proof (cases "1 \<le> \<bar>x\<bar>")
  case True
  define n where "n = nat \<lfloor>\<bar>x\<bar>\<rfloor>"
  have n: "0 < n" "real n \<le> \<bar>x\<bar>" "\<bar>x\<bar> < real n + 1"
    using True unfolding n_def by linarith+
  have fl: "0 < floorlog 2 n" using n(1) by (simp add: floorlog_def)
  have b: "2 ^ (floorlog 2 n - 1) \<le> n" "n < 2 ^ floorlog 2 n"
    using floorlog_bounds [of n 2] n(1) by simp_all
  have be: "binary_exponent x = int (floorlog 2 n) - 1"
    using True by (simp add: binary_exponent_def n_def)
  have 1: "pow2 (binary_exponent x) = 2 ^ (floorlog 2 n - 1)"
    using fl by (simp add: be pow2_def nat_diff_distrib')
  have 2: "pow2 (binary_exponent x + 1) = 2 ^ floorlog 2 n"
    by (simp add: be pow2_def)
  have "(2::real) ^ (floorlog 2 n - 1) = real (2 ^ (floorlog 2 n - 1))" by simp
  also have "\<dots> \<le> real n" using b(1) by (rule of_nat_mono)
  finally have lo: "(2::real) ^ (floorlog 2 n - 1) \<le> \<bar>x\<bar>" using n(2) by linarith
  have "n + 1 \<le> 2 ^ floorlog 2 n" using b(2) by simp
  then have "real (n + 1) \<le> real (2 ^ floorlog 2 n)" by (rule of_nat_mono)
  also have "\<dots> = (2::real) ^ floorlog 2 n" by simp
  finally have hi: "\<bar>x\<bar> < (2::real) ^ floorlog 2 n" using n(3) by simp
  show ?thesis using lo hi by (simp add: 1 2)
next
  case False
  define c where "c = nat (\<lceil>1 / \<bar>x\<bar>\<rceil> - 1)"
  have x: "0 < \<bar>x\<bar>" "\<bar>x\<bar> < 1" using assms False by simp_all
  then have inv: "1 < 1 / \<bar>x\<bar>" by simp
  then have ce: "2 \<le> \<lceil>1 / \<bar>x\<bar>\<rceil>" by linarith
  have c: "0 < c" "real c < 1 / \<bar>x\<bar>" "1 / \<bar>x\<bar> \<le> real c + 1"
    using ce unfolding c_def by linarith+
  have fl: "0 < floorlog 2 c" using c(1) by (simp add: floorlog_def)
  have b: "2 ^ (floorlog 2 c - 1) \<le> c" "c < 2 ^ floorlog 2 c"
    using floorlog_bounds [of c 2] c(1) by simp_all
  have be: "binary_exponent x = - int (floorlog 2 c)"
    using False by (simp add: binary_exponent_def c_def)
  have 1: "pow2 (binary_exponent x) = 1 / 2 ^ floorlog 2 c"
    using fl by (simp add: be pow2_def)
  have 2: "pow2 (binary_exponent x + 1) = 1 / 2 ^ (floorlog 2 c - 1)"
    using fl by (auto simp: be pow2_def nat_diff_distrib' algebra_simps intro: arg_cong)
  have "(2::real) ^ (floorlog 2 c - 1) = real (2 ^ (floorlog 2 c - 1))" by simp
  also have "\<dots> \<le> real c" using b(1) by (rule of_nat_mono)
  finally have "(2::real) ^ (floorlog 2 c - 1) < 1 / \<bar>x\<bar>" using c(2) by linarith
  then have hi: "\<bar>x\<bar> < 1 / 2 ^ (floorlog 2 c - 1)"
    using x(1) by (simp add: field_simps)
  have "c + 1 \<le> 2 ^ floorlog 2 c" using b(2) by simp
  then have "real (c + 1) \<le> real (2 ^ floorlog 2 c)" by (rule of_nat_mono)
  also have "\<dots> = (2::real) ^ floorlog 2 c" by simp
  finally have "1 / \<bar>x\<bar> \<le> (2::real) ^ floorlog 2 c" using c(3) by simp
  then have lo: "1 / 2 ^ floorlog 2 c \<le> \<bar>x\<bar>"
    using x(1) by (simp add: field_simps)
  show ?thesis using lo hi by (simp add: 1 2)
qed


lemma abs_pow2 [simp]: "\<bar>pow2 e\<bar> = pow2 e"
  by (simp add: abs_of_pos)

lemma pow2_powr: "pow2 e = 2 powr (of_int e)"
  by (simp add: pow2_def powr_realpow [symmetric] powr_minus field_simps)

lemma pow2_less_iff: "pow2 a < pow2 b \<longleftrightarrow> a < b"
  by (simp add: pow2_powr)

lemma pow2_le_iff: "pow2 a \<le> pow2 b \<longleftrightarrow> a \<le> b"
  by (simp add: pow2_powr)

lemma pow2_0 [simp]: "pow2 0 = 1"
  by (simp add: pow2_def)

lemma pow2_nat: "0 \<le> e \<Longrightarrow> pow2 e = of_int (2 ^ nat e)"
  by (simp add: pow2_def)

lemma pow2_diff: "pow2 (a - b) = pow2 a / pow2 b"
  by (simp add: pow2_powr powr_diff)

text \<open>The exponent is the only one that brackets the number.\<close>

lemma binary_exponent_unique:
  assumes "pow2 k \<le> \<bar>x\<bar>" and "\<bar>x\<bar> < pow2 (k + 1)"
  shows "binary_exponent x = k"
proof -
  have "0 < \<bar>x\<bar>" using assms(1) pow2_pos [of k] by linarith
  then have x: "x \<noteq> 0" by simp
  note b = binary_exponent_bounds [OF x]
  have "pow2 k < pow2 (binary_exponent x + 1)" using assms(1) b by linarith
  moreover have "pow2 (binary_exponent x) < pow2 (k + 1)" using assms(2) b by linarith
  ultimately show ?thesis by (simp add: pow2_less_iff)
qed

lemma round_even_error: "\<bar>of_int (round_even z) - z\<bar> \<le> 1 / 2"
  unfolding round_even_def Let_def by (auto; linarith)

lemma round_even_of_int [simp]: "round_even (of_int n) = n"
  by (simp add: round_even_def)

lemma round_even_bound:
  assumes "\<bar>z\<bar> \<le> of_int k"
  shows "\<bar>round_even z\<bar> \<le> k"
proof -
  have f: "- k \<le> \<lfloor>z\<rfloor>" "\<lfloor>z\<rfloor> \<le> k" using assms by linarith+
  have "\<lfloor>z\<rfloor> = k \<Longrightarrow> z = of_int k" using assms by linarith
  then have "\<lfloor>z\<rfloor> = k \<Longrightarrow> round_even z = k" by auto
  moreover have "\<lfloor>z\<rfloor> \<le> round_even z" "round_even z \<le> \<lfloor>z\<rfloor> + 1"
    by (auto simp: round_even_def Let_def)
  ultimately show ?thesis using f by linarith
qed


lemma round_double_error:
  assumes "round_double x = Some y"
  shows "\<bar>y - x\<bar> \<le> pow2 (max (binary_exponent x - 52) (- 1074)) / 2"
proof (cases "x = 0")
  case True
  with assms show ?thesis by (simp add: round_double_def less_imp_le)
next
  case False
  define p where "p = pow2 (max (binary_exponent x - 52) (- 1074))"
  have p: "0 < p" by (simp add: p_def)
  from assms False have y: "y = of_int (round_even (x / p)) * p"
    by (simp add: round_double_def Let_def p_def split: if_splits)
  have "y - x = (of_int (round_even (x / p)) - x / p) * p"
    using p by (simp add: y field_simps)
  then have "\<bar>y - x\<bar> = \<bar>of_int (round_even (x / p)) - x / p\<bar> * p"
    using p by (simp add: abs_mult)
  also have "\<dots> \<le> (1 / 2) * p"
    using round_even_error [of "x / p"] p by (intro mult_right_mono) simp_all
  finally show ?thesis by (simp add: p_def)
qed

text \<open>In the normal range the relative error of a rounding is at most \<open>2\<^sup>-\<^sup>5\<^sup>3\<close>.\<close>

lemma round_double_relative:
  assumes "pow2 (- 1022) \<le> \<bar>x\<bar>" and "round_double x = Some y"
  shows "\<bar>y - x\<bar> \<le> \<bar>x\<bar> / 2 ^ 53"
proof -
  have "0 < \<bar>x\<bar>" using assms(1) pow2_pos [of "- 1022"] by linarith
  then have x: "x \<noteq> 0" by simp
  note b = binary_exponent_bounds [OF x]
  have "pow2 (- 1022) < pow2 (binary_exponent x + 1)" using assms(1) b by linarith
  then have "- 1022 \<le> binary_exponent x" by (simp add: pow2_less_iff)
  then have m: "max (binary_exponent x - 52) (- 1074) = binary_exponent x - 52" by simp
  have p52: "pow2 52 = 2 ^ 52" by (simp add: pow2_def)
  have "\<bar>y - x\<bar> \<le> pow2 (binary_exponent x - 52) / 2"
    using round_double_error [OF assms(2)] unfolding m .
  also have "\<dots> = pow2 (binary_exponent x) / 2 ^ 53"
    by (simp add: pow2_diff p52)
  also have "\<dots> \<le> \<bar>x\<bar> / 2 ^ 53"
    using b by (simp add: divide_right_mono)
  finally show ?thesis .
qed

text \<open>Rounding does not cross a power of two, so it stays finite below \<open>2\<^sup>1\<^sup>0\<^sup>2\<^sup>3\<close>.\<close>

lemma round_double_bound:
  assumes "\<bar>x\<bar> \<le> pow2 k" and "- 1074 \<le> k" and "k \<le> 1023"
  shows "\<exists>y. round_double x = Some y \<and> \<bar>y\<bar> \<le> pow2 k"
proof (cases "x = 0")
  case True
  then show ?thesis by (simp add: round_double_def less_imp_le)
next
  case False
  define e where "e = max (binary_exponent x - 52) (- 1074)"
  define m where "m = round_even (x / pow2 e)"
  note b = binary_exponent_bounds [OF False]
  have "pow2 (binary_exponent x) \<le> pow2 k" using assms(1) b by linarith
  then have "binary_exponent x \<le> k" by (simp add: pow2_le_iff)
  then have e: "e \<le> k" using assms(2) by (simp add: e_def)
  have "\<bar>x / pow2 e\<bar> = \<bar>x\<bar> / pow2 e" by simp
  also have "\<dots> \<le> pow2 k / pow2 e"
    using assms(1) by (intro divide_right_mono) (simp_all add: less_imp_le)
  also have "\<dots> = of_int (2 ^ nat (k - e))" using e by (simp add: pow2_diff [symmetric] pow2_nat)
  finally have "\<bar>m\<bar> \<le> 2 ^ nat (k - e)" unfolding m_def by (rule round_even_bound)
  then have "\<bar>of_int m :: real\<bar> \<le> of_int (2 ^ nat (k - e))"
    by (metis of_int_abs of_int_le_iff)
  then have "\<bar>of_int m * pow2 e\<bar> \<le> of_int (2 ^ nat (k - e)) * pow2 e"
    by (simp add: abs_mult mult_right_mono)
  also have "\<dots> = pow2 (k - e) * pow2 e" using e by (simp add: pow2_nat)
  also have "\<dots> = pow2 k" by (simp add: pow2_add [symmetric])
  finally have y: "\<bar>of_int m * pow2 e\<bar> \<le> pow2 k" .
  have "pow2 k < pow2 1024" using assms(3) by (simp add: pow2_less_iff)
  with y have "\<bar>of_int m * pow2 e\<bar> < pow2 1024" by linarith
  then have "round_double x = Some (of_int m * pow2 e)"
    using False by (simp add: round_double_def Let_def e_def m_def)
  with y show ?thesis by simp
qed

text \<open>The numbers \<open>m * 2\<^sup>e\<close> with \<open>\<bar>m\<bar> < 2\<^sup>5\<^sup>3\<close> and \<open>-1074 \<le> e \<le> 971\<close> are rounded to themselves.\<close>

lemma round_double_representable:
  assumes "\<bar>m\<bar> < 2 ^ 53" and "- 1074 \<le> e" and "e \<le> 971"
  shows "round_double (of_int m * pow2 e) = Some (of_int m * pow2 e)"
proof (cases "m = 0")
  case True
  then show ?thesis by (simp add: round_double_def)
next
  case False
  define x where "x = of_int m * pow2 e"
  have x: "x \<noteq> 0" using False by (simp add: x_def less_imp_neq [OF pow2_pos, symmetric])
  define e' where "e' = max (binary_exponent x - 52) (- 1074)"
  note b = binary_exponent_bounds [OF x]
  have "\<bar>of_int m :: real\<bar> < of_int (2 ^ 53)"
    using assms(1) by (metis of_int_abs of_int_less_iff)
  then have "\<bar>x\<bar> < of_int (2 ^ 53) * pow2 e"
    unfolding x_def abs_mult abs_pow2 by (rule mult_strict_right_mono) simp
  also have "\<dots> = pow2 53 * pow2 e" by (simp add: pow2_def)
  also have "\<dots> = pow2 (53 + e)" by (simp add: pow2_add)
  finally have lt: "\<bar>x\<bar> < pow2 (53 + e)" .
  with b have "pow2 (binary_exponent x) < pow2 (53 + e)" by linarith
  then have "binary_exponent x < 53 + e" by (simp add: pow2_less_iff)
  then have e': "e' \<le> e" using assms(2) by (simp add: e'_def)
  have "x / pow2 e' = of_int m * pow2 (e - e')" by (simp add: x_def pow2_diff)
  also have "\<dots> = of_int (m * 2 ^ nat (e - e'))" using e' by (simp add: pow2_nat)
  finally have "round_even (x / pow2 e') = m * 2 ^ nat (e - e')" by (simp only: round_even_of_int)
  then have "of_int (round_even (x / pow2 e')) * pow2 e' = of_int m * (pow2 (e - e') * pow2 e')"
    using e' by (simp add: pow2_nat)
  also have "\<dots> = x" by (simp add: pow2_add [symmetric] x_def)
  finally have y: "of_int (round_even (x / pow2 e')) * pow2 e' = x" .
  have "pow2 (53 + e) \<le> pow2 1024" using assms(3) by (simp add: pow2_le_iff)
  with lt have "\<bar>x\<bar> < pow2 1024" by linarith
  then have "round_double x = Some x"
    using x y by (simp add: round_double_def Let_def e'_def)
  then show ?thesis by (simp add: x_def)
qed

lemma round_double_of_int:
  assumes "\<bar>n\<bar> < 2 ^ 53"
  shows "round_double (of_int n) = Some (of_int n)"
  using round_double_representable [OF assms, of 0] by simp

text \<open>In the normal range a rounding moves a positive number by a factor within \<open>1 \<plusminus> 2\<^sup>-\<^sup>5\<^sup>3\<close>.\<close>

lemma round_double_between:
  assumes "x = 0 \<or> pow2 (- 1022) \<le> x" and "round_double x = Some y"
  shows "x * (1 - 1 / 2 ^ 53) \<le> y \<and> y \<le> x * (1 + 1 / 2 ^ 53)"
proof (cases "x = 0")
  case True
  with assms(2) show ?thesis by (simp add: round_double_def)
next
  case False
  with assms(1) have n: "pow2 (- 1022) \<le> x" by simp
  then have x: "0 < x" using pow2_pos [of "- 1022"] by linarith
  then have "pow2 (- 1022) \<le> \<bar>x\<bar>" using n by simp
  from round_double_relative [OF this assms(2)] x
  have "\<bar>y - x\<bar> \<le> x / 2 ^ 53" by simp
  then have "x - x / 2 ^ 53 \<le> y" "y \<le> x + x / 2 ^ 53" by linarith+
  then show ?thesis by (simp add: right_diff_distrib distrib_left)
qed

lemma pow2_1022: "pow2 (- 1022) \<le> pow2 (- 1000) * (1 - 1 / 2 ^ 53) ^ 2"
proof -
  have "pow2 (- 1022) = pow2 (- 1000) * pow2 (- 22)"
    by (simp add: pow2_add [symmetric])
  moreover have "pow2 (- 22) \<le> (1 - 1 / 2 ^ 53) ^ 2"
    by (simp add: pow2_def power2_eq_square)
  ultimately show ?thesis by (simp add: mult_left_mono less_imp_le)
qed

text \<open>
  The weighted average as the code computes it lies within a relative error of
  \<open>2\<^sup>-\<^sup>5\<^sup>1\<close> of the exact quotient, for a held quantity that is not negative and prices
  in the normal range.
\<close>

lemma weighted_average_accuracy:
  fixes hq q :: int and avg px :: real
  assumes hq: "0 \<le> hq" and q: "0 < q"
    and avg: "pow2 (- 1000) \<le> avg" and px: "pow2 (- 1000) \<le> px"
    and held: "times_double (of_int hq) avg = Some held"
    and bought: "times_double (of_int q) px = Some bought"
    and cost: "plus_double held bought = Some cost"
    and v: "divide_double cost (of_int (hq + q)) = Some v"
  shows "\<bar>v - (of_int hq * avg + of_int q * px) / of_int (hq + q)\<bar>
           \<le> ((of_int hq * avg + of_int q * px) / of_int (hq + q)) / 2 ^ 51"
proof -
  define u :: real where "u = 1 / 2 ^ 53"
  define A where "A = of_int hq * avg"
  define B where "B = of_int q * px"
  define n :: real where "n = of_int (hq + q)"
  define E where "E = (A + B) / n"
  have u: "0 < u" "u < 1" by (simp_all add: u_def)
  have p: "0 < pow2 (- 1000)" by simp
  have avg0: "0 < avg" and px0: "0 < px" using avg px p by linarith+
  have n1: "1 \<le> n" using hq q by (simp add: n_def)
  have q1: "(1::real) \<le> of_int q" using q by linarith
  have hq0: "(0::real) \<le> of_int hq" using hq by simp
  have A0: "0 \<le> A" using hq0 avg0 by (simp add: A_def)
  have B1: "pow2 (- 1000) \<le> B"
  proof -
    have "pow2 (- 1000) \<le> 1 * px" using px by simp
    also have "\<dots> \<le> of_int q * px" using q1 px0 by (intro mult_right_mono) simp_all
    finally show ?thesis by (simp add: B_def)
  qed
  have An: "A = 0 \<or> pow2 (- 1022) \<le> A"
  proof (cases "hq = 0")
    case True
    then show ?thesis by (simp add: A_def)
  next
    case False
    with hq have "(1::real) \<le> of_int hq" by linarith
    then have "1 * avg \<le> of_int hq * avg" using avg0 by (intro mult_right_mono) simp_all
    moreover have "pow2 (- 1022) \<le> pow2 (- 1000)" by (simp add: pow2_le_iff)
    ultimately show ?thesis using avg by (simp add: A_def)
  qed
  have Bn: "B = 0 \<or> pow2 (- 1022) \<le> B"
  proof -
    have "pow2 (- 1022) \<le> pow2 (- 1000)" by (simp add: pow2_le_iff)
    with B1 show ?thesis by simp
  qed
  have h: "A * (1 - u) \<le> held" "held \<le> A * (1 + u)"
    using round_double_between [OF An] held by (simp_all add: times_double_def A_def u_def)
  have b: "B * (1 - u) \<le> bought" "bought \<le> B * (1 + u)"
    using round_double_between [OF Bn] bought by (simp_all add: times_double_def B_def u_def)
  have S: "(A + B) * (1 - u) \<le> held + bought" "held + bought \<le> (A + B) * (1 + u)"
    using h b by (simp_all add: algebra_simps)
  have nE: "pow2 (- 1000) \<le> E"
  proof -
    have "pow2 (- 1000) * n = pow2 (- 1000) * of_int hq + pow2 (- 1000) * of_int q"
      by (simp add: n_def algebra_simps)
    also have "\<dots> \<le> avg * of_int hq + px * of_int q"
      using avg px hq0 q1 by (intro add_mono mult_right_mono) simp_all
    finally have "pow2 (- 1000) * n \<le> A + B" by (simp add: A_def B_def mult.commute)
    then show ?thesis using n1 by (simp add: E_def field_simps)
  qed
  have E0: "0 < E" using nE p by linarith
  have AB: "A + B = E * n" using n1 by (simp add: E_def)
  have ABn: "pow2 (- 1000) \<le> A + B" using A0 B1 by linarith
  have u2: "(1 - u) ^ 2 \<le> 1 - u" "0 \<le> 1 - u" "1 - u \<le> 1"
    using u by (simp_all add: power2_eq_square mult_left_le)
  have Sn: "pow2 (- 1022) \<le> held + bought"
  proof -
    have "pow2 (- 1022) \<le> pow2 (- 1000) * (1 - u) ^ 2" using pow2_1022 by (simp add: u_def)
    also have "\<dots> \<le> pow2 (- 1000) * (1 - u)" using u2(1) by (intro mult_left_mono) simp_all
    also have "\<dots> \<le> (A + B) * (1 - u)" using ABn u2(2) by (intro mult_right_mono)
    also have "\<dots> \<le> held + bought" by (rule S(1))
    finally show ?thesis .
  qed
  have c: "(held + bought) * (1 - u) \<le> cost" "cost \<le> (held + bought) * (1 + u)"
    using round_double_between [of "held + bought" cost] Sn cost
    by (simp_all add: plus_double_def u_def)
  have c1: "(A + B) * (1 - u) ^ 2 \<le> cost"
  proof -
    have "(A + B) * (1 - u) ^ 2 = ((A + B) * (1 - u)) * (1 - u)" by (simp add: power2_eq_square)
    also have "\<dots> \<le> (held + bought) * (1 - u)" using S(1) u2(2) by (intro mult_right_mono)
    also have "\<dots> \<le> cost" by (rule c(1))
    finally show ?thesis .
  qed
  have c2: "cost \<le> (A + B) * (1 + u) ^ 2"
  proof -
    have "cost \<le> (held + bought) * (1 + u)" by (rule c(2))
    also have "\<dots> \<le> ((A + B) * (1 + u)) * (1 + u)" using S(2) u by (intro mult_right_mono) simp_all
    also have "\<dots> = (A + B) * (1 + u) ^ 2" by (simp add: power2_eq_square)
    finally show ?thesis .
  qed
  have n0: "of_int (hq + q) \<noteq> (0::real)" using n1 by (simp add: n_def)
  have vq: "round_double (cost / n) = Some v"
    using v n0 by (simp add: divide_double_def n_def)
  have Q1: "E * (1 - u) ^ 2 \<le> cost / n"
  proof -
    have "E * (1 - u) ^ 2 = ((A + B) * (1 - u) ^ 2) / n" by (simp add: E_def)
    also have "\<dots> \<le> cost / n" using c1 n1 by (intro divide_right_mono) simp_all
    finally show ?thesis .
  qed
  have Q2: "cost / n \<le> E * (1 + u) ^ 2"
  proof -
    have "cost / n \<le> ((A + B) * (1 + u) ^ 2) / n" using c2 n1 by (intro divide_right_mono) simp_all
    also have "\<dots> = E * (1 + u) ^ 2" by (simp add: E_def)
    finally show ?thesis .
  qed
  have Qn: "pow2 (- 1022) \<le> cost / n"
  proof -
    have "pow2 (- 1022) \<le> pow2 (- 1000) * (1 - u) ^ 2" using pow2_1022 by (simp add: u_def)
    also have "\<dots> \<le> E * (1 - u) ^ 2" using nE by (intro mult_right_mono) simp_all
    also have "\<dots> \<le> cost / n" by (rule Q1)
    finally show ?thesis .
  qed
  have w: "(cost / n) * (1 - u) \<le> v" "v \<le> (cost / n) * (1 + u)"
    using round_double_between [of "cost / n" v] Qn vq by (simp_all add: u_def)
  have lo: "E * (1 - u) ^ 3 \<le> v"
  proof -
    have "E * (1 - u) ^ 3 = (E * (1 - u) ^ 2) * (1 - u)" by (simp add: power3_eq_cube power2_eq_square)
    also have "\<dots> \<le> (cost / n) * (1 - u)" using Q1 u2(2) by (intro mult_right_mono)
    also have "\<dots> \<le> v" by (rule w(1))
    finally show ?thesis .
  qed
  have hi: "v \<le> E * (1 + u) ^ 3"
  proof -
    have "v \<le> (cost / n) * (1 + u)" by (rule w(2))
    also have "\<dots> \<le> (E * (1 + u) ^ 2) * (1 + u)" using Q2 u by (intro mult_right_mono) simp_all
    also have "\<dots> = E * (1 + u) ^ 3" by (simp add: power3_eq_cube power2_eq_square)
    finally show ?thesis .
  qed
  have k1: "(1 + u) ^ 3 \<le> 1 + 1 / 2 ^ 51" by (simp add: u_def power3_eq_cube)
  have k2: "1 - 1 / 2 ^ 51 \<le> (1 - u) ^ 3" by (simp add: u_def power3_eq_cube)
  have "v \<le> E * (1 + 1 / 2 ^ 51)"
    using hi k1 E0 by (meson less_imp_le mult_left_mono order_trans)
  moreover have "E * (1 - 1 / 2 ^ 51) \<le> v"
    using lo k2 E0 by (meson less_imp_le mult_left_mono order_trans)
  ultimately have "v \<le> E + E / 2 ^ 51" "E - E / 2 ^ 51 \<le> v"
    by (simp_all add: right_diff_distrib distrib_left)
  then have "\<bar>v - E\<bar> \<le> E / 2 ^ 51" by linarith
  then show ?thesis by (simp add: E_def A_def B_def n_def)
qed


text \<open>
  The weighted average is a finite double where the two products are at most
  \<open>2\<^sup>1\<^sup>0\<^sup>0\<^sup>0\<close> in magnitude and the new quantity is not 0.
\<close>

lemma weighted_average_finite:
  fixes hq q :: int and avg px :: real
  assumes A: "\<bar>of_int hq * avg\<bar> \<le> pow2 1000" and B: "\<bar>of_int q * px\<bar> \<le> pow2 1000"
    and n: "hq + q \<noteq> 0"
  shows "\<exists>held bought cost v.
           times_double (of_int hq) avg = Some held \<and>
           times_double (of_int q) px = Some bought \<and>
           plus_double held bought = Some cost \<and>
           divide_double cost (of_int (hq + q)) = Some v"
proof -
  obtain held where held: "round_double (of_int hq * avg) = Some held" "\<bar>held\<bar> \<le> pow2 1000"
    using round_double_bound [OF A] by auto
  obtain bought where bought: "round_double (of_int q * px) = Some bought" "\<bar>bought\<bar> \<le> pow2 1000"
    using round_double_bound [OF B] by auto
  have "pow2 1001 = pow2 1000 + pow2 1000"
    using pow2_add [of 1000 1] by (simp add: pow2_def [of 1])
  with held(2) bought(2) have "\<bar>held + bought\<bar> \<le> pow2 1001" by linarith
  from round_double_bound [OF this]
  obtain cost where cost: "round_double (held + bought) = Some cost" "\<bar>cost\<bar> \<le> pow2 1001"
    by auto
  have "1 \<le> \<bar>hq + q\<bar>" using n by linarith
  then have "1 \<le> \<bar>of_int (hq + q) :: real\<bar>"
    by (metis of_int_1_le_iff of_int_abs)
  then have "\<bar>cost / of_int (hq + q)\<bar> \<le> \<bar>cost\<bar> / 1"
    unfolding abs_divide by (intro divide_left_mono) simp_all
  with cost(2) have "\<bar>cost / of_int (hq + q)\<bar> \<le> pow2 1001" by simp
  from round_double_bound [OF this]
  obtain v where v: "round_double (cost / of_int (hq + q)) = Some v" by auto
  have "of_int (hq + q) \<noteq> (0::real)" using n by (simp only: of_int_eq_0_iff) simp
  with held(1) bought(1) cost(1) v show ?thesis
    by (simp add: times_double_def plus_double_def divide_double_def)
qed

section \<open>Claims about the portfolio manager\<close>

lemma portfolio_record_transaction:
  "record_transaction now i sb q px t db = Some (r, db') \<Longrightarrow> portfolio db' = portfolio db"
  by (auto simp: record_transaction_def Let_def split: option.splits if_splits)

lemma record_transaction_finite:
  "times_double (of_int \<bar>q\<bar>) px = Some totalAmount \<Longrightarrow>
   \<exists>r db'. record_transaction now i sb q px t db = Some (r, db')"
  by (simp add: record_transaction_def Let_def)

lemmas double_eval = times_double_def plus_double_def divide_double_def round_double_def
  binary_exponent_def round_even_def pow2_def compute_floorlog Let_def

text \<open>
  C3.  The claim sets the average price of a holding that is bought into to the quotient
  \<open>(oldQty * oldAvg + qty * price) / (oldQty + qty)\<close>.  The code computes this with
  doubles and stores the rounded result: for a holding of 1 share at 1 and a purchase of
  2 shares at 2 the stored average is \<open>7505999378950827 / 2\<^sup>5\<^sup>2\<close> (printed
  \<open>1.6666666666666667\<close>), not \<open>5 / 3\<close>.
\<close>

theorem weighted_average_counterexample:
  "map_option (\<lambda>(r, db'). portfolio db' (''A'', ''AAPL''))
     (updatePortfolio 0 ''A'' ''AAPL'' 2 2 1 one_share_db)
     = Some (Some \<lparr>h_quantity = 3, average_price = 7505999378950827 / 4503599627370496\<rparr>) \<and>
   (7505999378950827 / 4503599627370496 :: real) \<noteq> (1 * 1 + 2 * 2) / (1 + 2)"
  by (simp add: updatePortfolio_def record_transaction_def one_share_db_def empty_db_def
      double_eval)

text \<open>
  C3, amended.  Where the amount of the trade is a finite double, \<open>updatePortfolio\<close> with a
  positive quantity creates the holding at the trade price when there is none, and
  otherwise adds the quantity and sets the average price to
  \<open>(oldQty * oldAvg + qty * price) / (oldQty + qty)\<close> as computed with doubles: the two
  products, their sum and the quotient are each rounded to the nearest double (all of
  them being finite, as they are for products up to \<open>2\<^sup>1\<^sup>0\<^sup>0\<^sup>0\<close> by
  \<open>weighted_average_finite\<close>).  For a held quantity that is not negative and prices from
  \<open>2\<^sup>-\<^sup>1\<^sup>0\<^sup>0\<^sup>0\<close> on, the stored average is within a relative error of \<open>2\<^sup>-\<^sup>5\<^sup>1\<close> of the
  exact quotient.  With a negative quantity that the holding covers it lowers the held
  quantity and keeps the average price, and it deletes the holding when the quantity
  reaches 0; a sale that the holding does not cover is refused.
\<close>

theorem updatePortfolio_holding:
  assumes "times_double (of_int \<bar>quantityChange\<bar>) px = Some totalAmount"
  shows
  "(quantityChange > 0 \<and> portfolio db (investorId, stockSymbol) = None \<longrightarrow>
      (\<exists>r db'. updatePortfolio now investorId stockSymbol quantityChange px transactionId db
                  = Some (r, db') \<and>
               portfolio db' (investorId, stockSymbol)
                  = Some \<lparr>h_quantity = quantityChange, average_price = px\<rparr>)) \<and>
   (quantityChange > 0 \<and> portfolio db (investorId, stockSymbol) = Some h \<and>
    times_double (of_int (h_quantity h)) (average_price h) = Some held \<and>
    times_double (of_int quantityChange) px = Some bought \<and>
    plus_double held bought = Some cost \<and>
    divide_double cost (of_int (h_quantity h + quantityChange)) = Some newAveragePrice \<longrightarrow>
      (\<exists>r db'. updatePortfolio now investorId stockSymbol quantityChange px transactionId db
                  = Some (r, db') \<and>
               portfolio db' (investorId, stockSymbol)
                  = Some \<lparr>h_quantity = h_quantity h + quantityChange,
                          average_price = newAveragePrice\<rparr>) \<and>
      (0 \<le> h_quantity h \<and> pow2 (- 1000) \<le> average_price h \<and> pow2 (- 1000) \<le> px \<longrightarrow>
         \<bar>newAveragePrice -
            (of_int (h_quantity h) * average_price h + of_int quantityChange * px)
              / of_int (h_quantity h + quantityChange)\<bar>
           \<le> ((of_int (h_quantity h) * average_price h + of_int quantityChange * px)
                 / of_int (h_quantity h + quantityChange)) / 2 ^ 51)) \<and>
   (quantityChange < 0 \<and> portfolio db (investorId, stockSymbol) = Some h \<and>
    0 < h_quantity h + quantityChange \<longrightarrow>
      (\<exists>r db'. updatePortfolio now investorId stockSymbol quantityChange px transactionId db
                  = Some (r, db') \<and>
               portfolio db' (investorId, stockSymbol)
                  = Some \<lparr>h_quantity = h_quantity h + quantityChange,
                          average_price = average_price h\<rparr>)) \<and>
   (quantityChange < 0 \<and> portfolio db (investorId, stockSymbol) = Some h \<and>
    h_quantity h + quantityChange = 0 \<longrightarrow>
      (\<exists>r db'. updatePortfolio now investorId stockSymbol quantityChange px transactionId db
                  = Some (r, db') \<and>
               portfolio db' (investorId, stockSymbol) = None)) \<and>
   (quantityChange < 0 \<and> portfolio db (investorId, stockSymbol) = Some h \<and>
    h_quantity h + quantityChange < 0 \<longrightarrow>
      updatePortfolio now investorId stockSymbol quantityChange px transactionId db
        = Some (\<lparr>success = False, message = ''Insufficient shares''\<rparr>, db))"
proof -
  have fin: "\<exists>r db''. record_transaction now investorId stockSymbol quantityChange px
                        transactionId db' = Some (r, db'')" for db'
    using assms by (rule record_transaction_finite)
  have kept: "\<exists>r db''. record_transaction now investorId stockSymbol quantityChange px
                         transactionId db' = Some (r, db'') \<and>
                       portfolio db'' (investorId, stockSymbol) = v"
    if "portfolio db' (investorId, stockSymbol) = v" for db' v
  proof -
    obtain r db'' where r: "record_transaction now investorId stockSymbol quantityChange px
                        transactionId db' = Some (r, db'')"
      using fin [of db'] by blast
    from portfolio_record_transaction [OF r] that
    have "portfolio db'' (investorId, stockSymbol) = v" by simp
    with r show ?thesis by blast
  qed
  show ?thesis
  proof (intro conjI impI)
    assume "quantityChange > 0 \<and> portfolio db (investorId, stockSymbol) = None"
    then show "\<exists>r db'. updatePortfolio now investorId stockSymbol quantityChange px transactionId db
                    = Some (r, db') \<and>
                 portfolio db' (investorId, stockSymbol)
                    = Some \<lparr>h_quantity = quantityChange, average_price = px\<rparr>"
      by (simp add: updatePortfolio_def Let_def kept)
  next
    assume "quantityChange > 0 \<and> portfolio db (investorId, stockSymbol) = Some h \<and>
      times_double (of_int (h_quantity h)) (average_price h) = Some held \<and>
      times_double (of_int quantityChange) px = Some bought \<and>
      plus_double held bought = Some cost \<and>
      divide_double cost (of_int (h_quantity h + quantityChange)) = Some newAveragePrice"
    then show "\<exists>r db'. updatePortfolio now investorId stockSymbol quantityChange px transactionId db
                    = Some (r, db') \<and>
                 portfolio db' (investorId, stockSymbol)
                    = Some \<lparr>h_quantity = h_quantity h + quantityChange,
                            average_price = newAveragePrice\<rparr>"
      by (simp add: updatePortfolio_def Let_def kept)
  next
    assume c: "quantityChange > 0 \<and> portfolio db (investorId, stockSymbol) = Some h \<and>
      times_double (of_int (h_quantity h)) (average_price h) = Some held \<and>
      times_double (of_int quantityChange) px = Some bought \<and>
      plus_double held bought = Some cost \<and>
      divide_double cost (of_int (h_quantity h + quantityChange)) = Some newAveragePrice"
      and n: "0 \<le> h_quantity h \<and> pow2 (- 1000) \<le> average_price h \<and> pow2 (- 1000) \<le> px"
    show "\<bar>newAveragePrice -
            (of_int (h_quantity h) * average_price h + of_int quantityChange * px)
              / of_int (h_quantity h + quantityChange)\<bar>
           \<le> ((of_int (h_quantity h) * average_price h + of_int quantityChange * px)
                 / of_int (h_quantity h + quantityChange)) / 2 ^ 51"
      using c n by (intro weighted_average_accuracy [where held = held and bought = bought
            and cost = cost]) simp_all
  next
    assume "quantityChange < 0 \<and> portfolio db (investorId, stockSymbol) = Some h \<and>
      0 < h_quantity h + quantityChange"
    then show "\<exists>r db'. updatePortfolio now investorId stockSymbol quantityChange px transactionId db
                    = Some (r, db') \<and>
                 portfolio db' (investorId, stockSymbol)
                    = Some \<lparr>h_quantity = h_quantity h + quantityChange,
                            average_price = average_price h\<rparr>"
      by (simp add: updatePortfolio_def Let_def kept)
  next
    assume "quantityChange < 0 \<and> portfolio db (investorId, stockSymbol) = Some h \<and>
      h_quantity h + quantityChange = 0"
    then show "\<exists>r db'. updatePortfolio now investorId stockSymbol quantityChange px transactionId db
                    = Some (r, db') \<and>
                 portfolio db' (investorId, stockSymbol) = None"
      by (simp add: updatePortfolio_def Let_def kept)
  next
    assume "quantityChange < 0 \<and> portfolio db (investorId, stockSymbol) = Some h \<and>
      h_quantity h + quantityChange < 0"
    then show "updatePortfolio now investorId stockSymbol quantityChange px transactionId db
        = Some (\<lparr>success = False, message = ''Insufficient shares''\<rparr>, db)"
      by (simp add: updatePortfolio_def Let_def)
  qed
qed

text \<open>
  In \<open>seller_db\<close>: \<open>A\<close> buys 10 at 151 and holds 10 at 151; \<open>B\<close> buys 100 at 150 and holds
  200 at 145 (here every double operation is exact); \<open>B\<close> sells 10 and holds 90 at 140;
  \<open>B\<close> sells 100 and holds nothing; a sale of 101 is refused.  In \<open>one_share_db\<close>: the
  average stored for 2 more shares at 2 is within \<open>2\<^sup>-\<^sup>5\<^sup>1\<close> of \<open>5 / 3\<close>.
\<close>

theorem updatePortfolio_holding_witness:
  "portfolio seller_db (''A'', ''AAPL'') = None \<and>
   portfolio seller_db (''B'', ''AAPL'') = Some \<lparr>h_quantity = 100, average_price = 140\<rparr> \<and>
   times_double (of_int 100) 140 = Some 14000 \<and> times_double (of_int 100) 150 = Some 15000 \<and>
   plus_double 14000 15000 = Some 29000 \<and> divide_double 29000 (of_int (100 + 100)) = Some 145 \<and>
   map_option (\<lambda>(r, db'). portfolio db' (''A'', ''AAPL''))
     (updatePortfolio 0 ''A'' ''AAPL'' 10 151 1 seller_db)
     = Some (Some \<lparr>h_quantity = 10, average_price = 151\<rparr>) \<and>
   map_option (\<lambda>(r, db'). portfolio db' (''B'', ''AAPL''))
     (updatePortfolio 0 ''B'' ''AAPL'' 100 150 1 seller_db)
     = Some (Some \<lparr>h_quantity = 200, average_price = 145\<rparr>) \<and>
   map_option (\<lambda>(r, db'). portfolio db' (''B'', ''AAPL''))
     (updatePortfolio 0 ''B'' ''AAPL'' (-10) 151 1 seller_db)
     = Some (Some \<lparr>h_quantity = 90, average_price = 140\<rparr>) \<and>
   map_option (\<lambda>(r, db'). portfolio db' (''B'', ''AAPL''))
     (updatePortfolio 0 ''B'' ''AAPL'' (-100) 151 1 seller_db)
     = Some None \<and>
   updatePortfolio 0 ''B'' ''AAPL'' (-101) 151 1 seller_db
     = Some (\<lparr>success = False, message = ''Insufficient shares''\<rparr>, seller_db) \<and>
   portfolio one_share_db (''A'', ''AAPL'') = Some \<lparr>h_quantity = 1, average_price = 1\<rparr> \<and>
   times_double (of_int 1) 1 = Some 1 \<and> times_double (of_int 2) 2 = Some 4 \<and>
   plus_double 1 4 = Some 5 \<and>
   divide_double 5 (of_int (1 + 2)) = Some (7505999378950827 / 4503599627370496) \<and>
   pow2 (- 1000) \<le> 1 \<and>
   \<bar>7505999378950827 / 4503599627370496 - (of_int 1 * 1 + of_int 2 * 2) / of_int (1 + 2)\<bar>
     \<le> ((of_int 1 * 1 + of_int 2 * 2) / of_int (1 + 2) :: real) / 2 ^ 51"
proof -
  have a: "portfolio seller_db (''A'', ''AAPL'') = None"
    and b: "portfolio seller_db (''B'', ''AAPL'')
              = Some \<lparr>h_quantity = 100, average_price = 140\<rparr>"
    by (simp_all add: seller_db_def empty_db_def)
  have t1: "times_double (of_int \<bar>10\<bar>) 151 = Some 1510"
    and t2: "times_double (of_int \<bar>100\<bar>) 150 = Some 15000"
    and t3: "times_double (of_int \<bar>- 10\<bar>) 151 = Some 1510"
    and t4: "times_double (of_int \<bar>- 100\<bar>) 151 = Some 15100"
    and h: "times_double (of_int 100) 140 = Some 14000"
    and q: "times_double (of_int 100) 150 = Some 15000"
    and s: "plus_double 14000 15000 = Some 29000"
    and d: "divide_double 29000 (of_int (100 + 100)) = Some 145"
    and t5: "times_double (of_int \<bar>- 101\<bar>) 151 = Some 15251"
    and t6: "times_double (of_int \<bar>2\<bar>) 2 = Some 4"
    and h1: "times_double (of_int 1) 1 = Some 1"
    and q1: "times_double (of_int 2) 2 = Some 4"
    and s1: "plus_double 1 4 = Some 5"
    and d1: "divide_double 5 (of_int (1 + 2)) = Some (7505999378950827 / 4503599627370496)"
    by (simp_all add: double_eval)
  have o: "portfolio one_share_db (''A'', ''AAPL'')
             = Some \<lparr>h_quantity = 1, average_price = 1\<rparr>"
    by (simp add: one_share_db_def empty_db_def)
  have p: "pow2 (- 1000) \<le> 1" "pow2 (- 1000) \<le> 2" "pow2 (- 1000) \<le> 140"
    "pow2 (- 1000) \<le> 150"
    by (simp_all add: pow2_def)
  show ?thesis
    using updatePortfolio_holding [OF t1, where db = seller_db
        and investorId = "''A''" and stockSymbol = "''AAPL''" and now = 0
        and transactionId = 1]
      updatePortfolio_holding [OF t2, where db = seller_db
        and investorId = "''B''" and stockSymbol = "''AAPL''" and now = 0
        and transactionId = 1 and h = "\<lparr>h_quantity = 100, average_price = 140\<rparr>"
        and held = 14000 and bought = 15000 and cost = 29000 and newAveragePrice = 145]
      updatePortfolio_holding [OF t3, where db = seller_db
        and investorId = "''B''" and stockSymbol = "''AAPL''" and now = 0
        and transactionId = 1 and h = "\<lparr>h_quantity = 100, average_price = 140\<rparr>"]
      updatePortfolio_holding [OF t4, where db = seller_db
        and investorId = "''B''" and stockSymbol = "''AAPL''" and now = 0
        and transactionId = 1 and h = "\<lparr>h_quantity = 100, average_price = 140\<rparr>"]
      updatePortfolio_holding [OF t5, where db = seller_db
        and investorId = "''B''" and stockSymbol = "''AAPL''" and now = 0
        and transactionId = 1 and h = "\<lparr>h_quantity = 100, average_price = 140\<rparr>"]
      updatePortfolio_holding [OF t6, where db = one_share_db
        and investorId = "''A''" and stockSymbol = "''AAPL''" and now = 0
        and transactionId = 1 and h = "\<lparr>h_quantity = 1, average_price = 1\<rparr>"
        and held = 1 and bought = 4 and cost = 5
        and newAveragePrice = "7505999378950827 / 4503599627370496"]
      a b h q s d o h1 q1 s1 d1 p
    by auto
qed

text \<open>
  C9.  The claim lets \<open>validateOrder\<close> accept a market buy (price 0) whatever the balance.
  The required balance is 0 indeed, but the check \<open>balance < requiredBalance\<close> is still
  made, and \<open>registerInvestor\<close> stores any initial balance: an investor registered with
  the balance -1 has a market buy refused.
\<close>

theorem market_buy_counterexample:
  "validateOrder (snd (registerInvestor 0 ''inv-1'' ''Ann'' ''ann@example.org'' (- 1) empty_db))
     ''inv-1'' ''AAPL'' ''BUY'' 10 0 =
     \<lparr>valid = False, v_message = ''Insufficient balance'', required_balance = 0,
      available_shares = 0\<rparr>"
  by (simp add: validateOrder_def registerInvestor_def getInvestor_def empty_db_def Let_def)

text \<open>
  C9, amended.  For every existing investor whose balance is not negative,
  \<open>validateOrder\<close> on a BUY with price 0 computes the required balance 0 and answers
  \<open>valid\<close>, whatever the quantity.
\<close>

theorem market_buy_always_valid:
  assumes "getInvestor db investorId = Some investor" and "0 \<le> balance investor"
  shows "validateOrder db investorId stockSymbol ''BUY'' qty 0 =
           \<lparr>valid = True, v_message = ''Order valid'', required_balance = 0,
            available_shares = 0\<rparr>"
  using assms by (simp add: validateOrder_def Let_def)

theorem market_buy_always_valid_witness:
  "getInvestor (snd (registerInvestor 0 ''inv-1'' ''Ann'' ''ann@example.org'' 100 empty_db))
     ''inv-1''
     = Some \<lparr>inv_investor_id = ''inv-1'', inv_name = ''Ann'', inv_email = ''ann@example.org'',
             balance = 100, inv_created_at = 0\<rparr> \<and>
   (0 :: real) \<le> 100 \<and>
   validateOrder (snd (registerInvestor 0 ''inv-1'' ''Ann'' ''ann@example.org'' 100 empty_db))
      ''inv-1'' ''AAPL'' ''BUY'' 1000000 0 =
     \<lparr>valid = True, v_message = ''Order valid'', required_balance = 0, available_shares = 0\<rparr>"
proof -
  have g: "getInvestor
      (snd (registerInvestor 0 ''inv-1'' ''Ann'' ''ann@example.org'' 100 empty_db)) ''inv-1''
     = Some \<lparr>inv_investor_id = ''inv-1'', inv_name = ''Ann'', inv_email = ''ann@example.org'',
             balance = 100, inv_created_at = 0\<rparr>"
    by (simp add: registerInvestor_def getInvestor_def empty_db_def)
  show ?thesis
    using g market_buy_always_valid [OF g, of "''AAPL''" 1000000] by simp
qed

section \<open>Claims about the market service\<close>

lemma isBuyPressure_spec:
  assumes "orders e (buy_order_id x) = Some buyOrder"
    and "orders e (sell_order_id x) = Some sellOrder"
    and "spec_aggressor buyOrder sellOrder = Some a"
  shows "isBuyPressure e x = (a = Buyer)"
  using assms by (auto simp: isBuyPressure_def spec_aggressor_def split: if_splits)

text \<open>
  For an execution whose two orders the engine knows (as it does those of every
  execution that \<open>addOrder\<close> returns, by \<open>addOrder_executions_known\<close>), \<open>processExecution\<close>
  sends one price update, for the execution's symbol, price and quantity.  Where the
  prices and timestamps of the two orders tell the aggressor, its direction follows the
  aggressor: upward (\<open>is_buy\<close> true) when it is the buy order, downward when it is the
  sell order.
\<close>

lemma aggressor_rule:
  assumes "orders (matchingEngine ms) (buy_order_id x) = Some buyOrder"
    and "orders (matchingEngine ms) (sell_order_id x) = Some sellOrder"
    and "spec_aggressor buyOrder sellOrder = Some a"
  shows "filter isPriceUpdate (calls (processExecution now x ms)) =
           filter isPriceUpdate (calls ms) @
             [UpdatePrice (ex_stock_symbol x) (ex_price x) (ex_quantity x) (a = Buyer)]"
  using isBuyPressure_spec [OF assms] by (simp add: processExecution_def Let_def)

text \<open>
  A sell of 100 shares at 150 rests (order 0, placed at time 1); a market buy of 100 shares
  arrives at time 2 (order 1).  They trade at 150, the buyer is the aggressor and the
  price update goes upward.
\<close>

lemma aggressor_rule_example:
  "fst (admit 2 ''B'' ''AAPL'' (OT_num 0) 100 0 resting_sell) =
     [\<lparr>execution_id = 2, buy_order_id = 1, sell_order_id = 0, ex_stock_symbol = ''AAPL'',
       ex_quantity = 100, ex_price = 150, buyer_id = ''B'', seller_id = ''S'',
       ex_timestamp = 2\<rparr>] \<and>
   orders (snd (admit 2 ''B'' ''AAPL'' (OT_num 0) 100 0 resting_sell)) 1
     = Some ((new_order 1 ''B'' ''AAPL'' (OT_num 0) 100 0 2)
              \<lparr>filled_quantity := 100, status := FILLED\<rparr>) \<and>
   orders (snd (admit 2 ''B'' ''AAPL'' (OT_num 0) 100 0 resting_sell)) 0
     = Some ((new_order 0 ''S'' ''AAPL'' (OT_num 1) 100 150 1)
              \<lparr>filled_quantity := 100, status := FILLED\<rparr>) \<and>
   spec_aggressor
     ((new_order 1 ''B'' ''AAPL'' (OT_num 0) 100 0 2)\<lparr>filled_quantity := 100, status := FILLED\<rparr>)
     ((new_order 0 ''S'' ''AAPL'' (OT_num 1) 100 150 1)\<lparr>filled_quantity := 100, status := FILLED\<rparr>)
     = Some Buyer \<and>
   filter isPriceUpdate
     (calls (processExecution 2 (hd (fst (admit 2 ''B'' ''AAPL'' (OT_num 0) 100 0 resting_sell)))
        ((open_market empty_db)
           \<lparr>matchingEngine := snd (admit 2 ''B'' ''AAPL'' (OT_num 0) 100 0 resting_sell)\<rparr>)))
     = [UpdatePrice ''AAPL'' 150 100 True]"
proof -
  let ?e = "snd (admit 2 ''B'' ''AAPL'' (OT_num 0) 100 0 resting_sell)"
  let ?x = "\<lparr>execution_id = 2, buy_order_id = 1, sell_order_id = 0, ex_stock_symbol = ''AAPL'',
       ex_quantity = 100, ex_price = 150, buyer_id = ''B'', seller_id = ''S'',
       ex_timestamp = 2\<rparr>"
  have x: "fst (admit 2 ''B'' ''AAPL'' (OT_num 0) 100 0 resting_sell) = [?x]"
    by (simp add: resting_sell_def engine_eval)
  have b: "orders (matchingEngine ((open_market empty_db)\<lparr>matchingEngine := ?e\<rparr>))
             (buy_order_id ?x)
     = Some ((new_order 1 ''B'' ''AAPL'' (OT_num 0) 100 0 2)
              \<lparr>filled_quantity := 100, status := FILLED\<rparr>)"
    by (simp add: resting_sell_def engine_eval)
  have s: "orders (matchingEngine ((open_market empty_db)\<lparr>matchingEngine := ?e\<rparr>))
             (sell_order_id ?x)
     = Some ((new_order 0 ''S'' ''AAPL'' (OT_num 1) 100 150 1)
              \<lparr>filled_quantity := 100, status := FILLED\<rparr>)"
    by (simp add: resting_sell_def engine_eval)
  have a: "spec_aggressor
     ((new_order 1 ''B'' ''AAPL'' (OT_num 0) 100 0 2)\<lparr>filled_quantity := 100, status := FILLED\<rparr>)
     ((new_order 0 ''S'' ''AAPL'' (OT_num 1) 100 150 1)\<lparr>filled_quantity := 100, status := FILLED\<rparr>)
     = Some Buyer"
    by (simp add: spec_aggressor_def new_order_def)
  have "filter isPriceUpdate
          (calls (processExecution 2 ?x ((open_market empty_db)\<lparr>matchingEngine := ?e\<rparr>)))
       = [UpdatePrice ''AAPL'' 150 100 True]"
    using aggressor_rule [OF b s a, of 2] by (simp add: open_market_def)
  with x b s a show ?thesis by simp
qed

lemmas service_eval = placeOrder_def validateOrder_def getInvestor_def registerInvestor_def
  rejected_def placement_pressure_def processExecution_def isBuyPressure_def open_market_def
  empty_db_def

text \<open>
  C5.  The claim makes the later-arrived of two limit orders the aggressor, and the
  comments of \<open>processExecution\<close> say the same (\<open>If both are limit orders, the most recent
  order determines the direction\<close>).  The code compares the timestamps \<open>created_at\<close>,
  which count milliseconds.  When a sell of 100 shares at 150 and then a buy of 100 shares
  at 150 are placed within the same millisecond (time 5), the buy arrives later and
  trades with the resting sell, yet the branch commented \<open>Seller's order was more recent\<close>
  is taken and the price update of the execution goes downward (\<open>is_buy\<close> false).
  Placed one millisecond later (time 6), the same buy sends it upward.
\<close>

theorem same_timestamp_sell_pressure:
  "fst (placeOrder 5 sell_100_at_150 (open_market tie_db))
     = \<lparr>pr_order_id = Some 0, pr_success = True, pr_message = ''Order placed successfully'',
        pr_status = PENDING\<rparr> \<and>
   fst (placeOrder 5 buy_100_at_150 (snd (placeOrder 5 sell_100_at_150 (open_market tie_db))))
     = \<lparr>pr_order_id = Some 1, pr_success = True, pr_message = ''Order placed successfully'',
        pr_status = FILLED\<rparr> \<and>
   map_option created_at (orders (matchingEngine
      (snd (placeOrder 5 buy_100_at_150
         (snd (placeOrder 5 sell_100_at_150 (open_market tie_db)))))) 0) = Some 5 \<and>
   map_option created_at (orders (matchingEngine
      (snd (placeOrder 5 buy_100_at_150
         (snd (placeOrder 5 sell_100_at_150 (open_market tie_db)))))) 1) = Some 5 \<and>
   filter isPriceUpdate (calls (snd (placeOrder 5 sell_100_at_150 (open_market tie_db))))
     = [UpdatePrice ''AAPL'' 150 30 False] \<and>
   filter isPriceUpdate (calls (snd (placeOrder 5 buy_100_at_150
        (snd (placeOrder 5 sell_100_at_150 (open_market tie_db))))))
     = [UpdatePrice ''AAPL'' 150 30 False, UpdatePrice ''AAPL'' 150 100 False] \<and>
   filter isPriceUpdate (calls (snd (placeOrder 6 buy_100_at_150
        (snd (placeOrder 5 sell_100_at_150 (open_market tie_db))))))
     = [UpdatePrice ''AAPL'' 150 30 False, UpdatePrice ''AAPL'' 150 100 True]"
  by (simp add: service_eval tie_db_def sell_100_at_150_def buy_100_at_150_def engine_eval)

text \<open>
  C6.  When the validation that \<open>placeOrder\<close> asks of the investor service fails, the call
  answers with the status \<open>REJECTED\<close> and leaves the whole state of the service as it was:
  no event is emitted (so no \<open>ORDER_PLACED\<close>), the order books and the store are unchanged,
  and no request is sent to another service.
\<close>

theorem rejected_order_changes_nothing:
  assumes "\<not> valid (validateOrder (store ms) (rq_investor_id rq) (rq_stock_symbol rq)
                      (if rq_order_type rq = OT_num 0 then ''BUY'' else ''SELL'')
                      (rq_quantity rq) (rq_price rq))"
  shows "pr_status (fst (placeOrder now rq ms)) = REJECTED \<and>
         snd (placeOrder now rq ms) = ms \<and>
         emitted (matchingEngine (snd (placeOrder now rq ms))) = emitted (matchingEngine ms) \<and>
         orderBooks (matchingEngine (snd (placeOrder now rq ms)))
           = orderBooks (matchingEngine ms) \<and>
         store (snd (placeOrder now rq ms)) = store ms"
  using assms by (simp add: placeOrder_def rejected_def Let_def)

theorem rejected_order_changes_nothing_witness:
  "validateOrder poor_investor_db ''inv-1'' ''AAPL'' ''BUY'' 10 150 =
     \<lparr>valid = False, v_message = ''Insufficient balance'', required_balance = 1500,
      available_shares = 0\<rparr> \<and>
   placeOrder 1 buy_10_at_150 (open_market poor_investor_db) =
     (\<lparr>pr_order_id = None, pr_success = False, pr_message = ''Insufficient balance'',
       pr_status = REJECTED\<rparr>, open_market poor_investor_db) \<and>
   emitted (matchingEngine (snd (placeOrder 1 buy_10_at_150 (open_market poor_investor_db))))
     = []"
proof -
  have v: "validateOrder poor_investor_db ''inv-1'' ''AAPL'' ''BUY'' 10 150 =
     \<lparr>valid = False, v_message = ''Insufficient balance'', required_balance = 1500,
      available_shares = 0\<rparr>"
    by (simp add: validateOrder_def poor_investor_db_def registerInvestor_def getInvestor_def
          empty_db_def Let_def)
  then have n: "\<not> valid (validateOrder (store (open_market poor_investor_db))
       (rq_investor_id buy_10_at_150) (rq_stock_symbol buy_10_at_150)
       (if rq_order_type buy_10_at_150 = OT_num 0 then ''BUY'' else ''SELL'')
       (rq_quantity buy_10_at_150) (rq_price buy_10_at_150))"
    by (simp add: open_market_def buy_10_at_150_def)
  have m: "pr_message (fst (placeOrder 1 buy_10_at_150 (open_market poor_investor_db)))
             = ''Insufficient balance''"
    "pr_order_id (fst (placeOrder 1 buy_10_at_150 (open_market poor_investor_db))) = None"
    "pr_success (fst (placeOrder 1 buy_10_at_150 (open_market poor_investor_db))) = False"
    using v by (simp_all add: placeOrder_def rejected_def open_market_def buy_10_at_150_def Let_def)
  have e: "emitted (matchingEngine (open_market poor_investor_db)) = []"
    by (simp add: open_market_def new_engine_def)
  show ?thesis
    using rejected_order_changes_nothing [OF n, of 1] v m e
    by (simp add: prod_eq_iff)
qed

section \<open>Claims about the analytics engine\<close>




lemma symbols_group_by_symbol:
  "map ts_stock_symbol (group_by_symbol rows) = sort (remdups (map tr_stock_symbol rows))"
  by (simp add: group_by_symbol_def aggregate_def Let_def comp_def)

lemma set_group_by_symbol:
  "set (group_by_symbol rows) = (\<lambda>s. aggregate s rows) ` tr_stock_symbol ` set rows"
  by (simp add: group_by_symbol_def)

lemma length_group_by_symbol:
  "length (group_by_symbol rows) = card (tr_stock_symbol ` set rows)"
proof -
  have "length (group_by_symbol rows) = length (remdups (map tr_stock_symbol rows))"
    by (simp add: group_by_symbol_def)
  also have "\<dots> = card (set (map tr_stock_symbol rows))"
    by (simp only: length_remdups_card_conv)
  finally show ?thesis by simp
qed

lemma sql_limit_take:
  "sql_limit n xs = take (if n < 0 then length xs else nat n) xs"
  by (simp add: sql_limit_def)

lemma ranked_descending: "sorted_wrt (\<lambda>g h. total_volume h \<le> total_volume g) (ranked rows)"
proof -
  have "sorted (map (\<lambda>g. - total_volume g) (ranked rows))"
    by (simp add: ranked_def)
  then show ?thesis by (simp add: sorted_map)
qed

lemma ranked_symbols_distinct: "distinct (map ts_stock_symbol (ranked rows))"
proof -
  have "distinct (map ts_stock_symbol (group_by_symbol rows))"
    by (simp add: symbols_group_by_symbol)
  then show ?thesis
    by (simp add: ranked_def distinct_map)
qed

lemma set_ranked: "set (ranked rows) = (\<lambda>s. aggregate s rows) ` tr_stock_symbol ` set rows"
  by (simp add: ranked_def set_group_by_symbol)

lemma length_ranked: "length (ranked rows) = card (tr_stock_symbol ` set rows)"
  by (simp add: ranked_def length_group_by_symbol)

lemma take_descending_top:
  assumes "sorted_wrt (\<lambda>g h. f h \<le> f g) xs"
    and "g \<in> set (take k xs)" and "h \<in> set xs" and "h \<notin> set (take k xs)"
  shows "f h \<le> f g"
proof -
  have "h \<in> set (drop k xs)"
    using assms(3,4) by (metis Un_iff append_take_drop_id set_append)
  moreover have "sorted_wrt (\<lambda>g h. f h \<le> f g) (take k xs @ drop k xs)"
    using assms(1) by simp
  then have "\<forall>x \<in> set (take k xs). \<forall>y \<in> set (drop k xs). f y \<le> f x"
    unfolding sorted_wrt_append by blast
  ultimately show ?thesis using assms(2) by blast
qed

lemma getTopTradedStocks_take:
  "getTopTradedStocks now limit timePeriod db =
     take (if limit < 0 then length (ranked (window_rows now timePeriod db)) else nat limit)
       (ranked (window_rows now timePeriod db))"
  by (simp add: getTopTradedStocks_def sql_limit_take)

lemma total_volume_aggregate:
  "total_volume (aggregate s rows)
     = sum_list (map tr_quantity (filter (\<lambda>t. tr_stock_symbol t = s) rows))"
  by (simp add: aggregate_def Let_def)

lemma trade_count_aggregate:
  "trade_count (aggregate s rows) = length (filter (\<lambda>t. tr_stock_symbol t = s) rows)"
  by (simp add: aggregate_def Let_def)

lemma symbol_aggregate: "ts_stock_symbol (aggregate s rows) = s"
  by (simp add: aggregate_def Let_def)

text \<open>
  C7.  The claim bounds the window at \<open>now\<close>, breaks ties of the total quantity by the
  number of trades, and returns at most \<open>limit\<close> entries.  The query selects every trade
  from \<open>now - window\<close> on, sorts on the total quantity alone and cuts with \<open>LIMIT\<close>.  On
  \<open>trades_db\<close> at time 1000 with a window of 100: the trade of \<open>D\<close>, stamped 1500, is
  counted; \<open>A\<close>, \<open>B\<close> and \<open>C\<close> tie at 10 shares and come out with 1, 2 and 1 trades, an
  order that the number of trades does not explain in either direction; and the limit -1
  returns all four entries.
\<close>

theorem top_traded_counterexample:
  "map (\<lambda>g. (ts_stock_symbol g, total_volume g, trade_count g))
     (getTopTradedStocks 1000 10 100 trades_db)
     = [(''D'', 20, 1), (''A'', 10, 1), (''B'', 10, 2), (''C'', 10, 1)] \<and>
   length (getTopTradedStocks 1000 (- 1) 100 trades_db) = 4"
  by (simp add: getTopTradedStocks_def sql_limit_def ranked_def group_by_symbol_def aggregate_def
        window_rows_def trades_db_def trade_def empty_db_def Let_def)

text \<open>
  C7, amended.  \<open>getTopTradedStocks\<close> groups the trades stamped \<open>now - window\<close> or later by
  symbol.  Its result is in descending order of the total traded quantity, holds each
  symbol at most once, gives for each symbol the sum of the quantities and the number of
  its selected trades, and ranks no left-out symbol above an entry.  It has \<open>limit\<close>
  entries, or one per symbol if those are fewer or \<open>limit\<close> is negative.  Of entries of
  equal total quantity the query fixes no order.
\<close>

theorem top_traded_ranking:
  "sorted_wrt (\<lambda>g h. total_volume h \<le> total_volume g)
     (getTopTradedStocks now limit timePeriod db) \<and>
   distinct (map ts_stock_symbol (getTopTradedStocks now limit timePeriod db)) \<and>
   (\<forall>g \<in> set (getTopTradedStocks now limit timePeriod db).
      ts_stock_symbol g \<in> tr_stock_symbol ` set (window_rows now timePeriod db) \<and>
      total_volume g = sum_list (map tr_quantity
         (filter (\<lambda>t. tr_stock_symbol t = ts_stock_symbol g) (window_rows now timePeriod db))) \<and>
      trade_count g = length
         (filter (\<lambda>t. tr_stock_symbol t = ts_stock_symbol g) (window_rows now timePeriod db))) \<and>
   (\<forall>g \<in> set (getTopTradedStocks now limit timePeriod db).
      \<forall>s \<in> tr_stock_symbol ` set (window_rows now timePeriod db).
        s \<notin> ts_stock_symbol ` set (getTopTradedStocks now limit timePeriod db) \<longrightarrow>
        sum_list (map tr_quantity
           (filter (\<lambda>t. tr_stock_symbol t = s) (window_rows now timePeriod db)))
          \<le> total_volume g) \<and>
   length (getTopTradedStocks now limit timePeriod db) =
     (if limit < 0 then card (tr_stock_symbol ` set (window_rows now timePeriod db))
      else min (nat limit) (card (tr_stock_symbol ` set (window_rows now timePeriod db))))"
proof -
  define rows where "rows = window_rows now timePeriod db"
  define k where "k = (if limit < 0 then length (ranked rows) else nat limit)"
  define R where "R = getTopTradedStocks now limit timePeriod db"
  have R: "R = take k (ranked rows)"
    unfolding R_def k_def rows_def by (rule getTopTradedStocks_take)
  have 1: "sorted_wrt (\<lambda>g h. total_volume h \<le> total_volume g) R"
    unfolding R using ranked_descending [of rows] by (rule sorted_wrt_take)
  have 2: "distinct (map ts_stock_symbol R)"
    unfolding R using ranked_symbols_distinct [of rows] by (simp add: take_map [symmetric])
  have sub: "set R \<subseteq> (\<lambda>s. aggregate s rows) ` tr_stock_symbol ` set rows"
    unfolding R using set_take_subset [of k "ranked rows"] by (simp add: set_ranked)
  have 3: "ts_stock_symbol g \<in> tr_stock_symbol ` set rows \<and>
      total_volume g = sum_list (map tr_quantity
         (filter (\<lambda>t. tr_stock_symbol t = ts_stock_symbol g) rows)) \<and>
      trade_count g = length (filter (\<lambda>t. tr_stock_symbol t = ts_stock_symbol g) rows)"
    if "g \<in> set R" for g
  proof -
    from that sub obtain s where s: "s \<in> tr_stock_symbol ` set rows" "g = aggregate s rows"
      by blast
    then show ?thesis
      by (simp add: symbol_aggregate total_volume_aggregate trade_count_aggregate)
  qed
  have 4: "sum_list (map tr_quantity (filter (\<lambda>t. tr_stock_symbol t = s) rows))
             \<le> total_volume g"
    if "g \<in> set R" "s \<in> tr_stock_symbol ` set rows" "s \<notin> ts_stock_symbol ` set R" for g s
  proof -
    have "aggregate s rows \<in> set (ranked rows)"
      using that(2) by (simp add: set_ranked)
    moreover have "aggregate s rows \<notin> set (take k (ranked rows))"
      using that(3) unfolding R by (metis image_eqI symbol_aggregate)
    moreover have "g \<in> set (take k (ranked rows))"
      using that(1) unfolding R .
    ultimately have "total_volume (aggregate s rows) \<le> total_volume g"
      using take_descending_top [OF ranked_descending] by blast
    then show ?thesis by (simp add: total_volume_aggregate)
  qed
  have 5: "length R = (if limit < 0 then card (tr_stock_symbol ` set rows)
      else min (nat limit) (card (tr_stock_symbol ` set rows)))"
    unfolding R k_def by (simp add: length_ranked min.commute)
  show ?thesis
    using 1 2 3 4 5 unfolding R_def rows_def by blast
qed

text \<open>
  On \<open>trades_db\<close> with the limit 2: \<open>D\<close> with 20 shares and \<open>A\<close> with 10; \<open>B\<close>, left out,
  has 10 shares as well.
\<close>

theorem top_traded_ranking_witness:
  "map (\<lambda>g. (ts_stock_symbol g, total_volume g, trade_count g))
     (getTopTradedStocks 1000 2 100 trades_db) = [(''D'', 20, 1), (''A'', 10, 1)] \<and>
   map tr_stock_symbol (window_rows 1000 100 trades_db) = [''B'', ''A'', ''C'', ''B'', ''D''] \<and>
   sum_list (map tr_quantity
     (filter (\<lambda>t. tr_stock_symbol t = ''B'') (window_rows 1000 100 trades_db))) = (10 :: int) \<and>
   length (getTopTradedStocks 1000 2 100 trades_db) = 2"
  using top_traded_ranking [of 1000 2 100 trades_db]
  by (simp add: getTopTradedStocks_def sql_limit_def ranked_def group_by_symbol_def aggregate_def
        window_rows_def trades_db_def trade_def empty_db_def Let_def)

end
